theory Spec2Isabelle
  imports Complex_Main "HOL-Library.Multiset"
begin

section \<open>JavaScript values\<close>

text \<open>
  The two programs of the repository, \<^verbatim>\<open>scripts/archive-fillrate.js\<close> (the archiver) and
  \<^verbatim>\<open>generate.mjs\<close> (the forecast generator), are embedded as HOL functions over the
  values a JavaScript program sees after \<^verbatim>\<open>JSON.parse\<close>.

  A number is \<open>NaN\<close>, one of the two infinities, or finite; a finite number is given by
  its value, a rational, and the sum of two finite numbers is a built-in parameter (see
  below), so nothing is assumed about rounding or overflow. A string is the list of the
  bytes of its UTF-8 encoding.
\<close>

datatype jsnum = NaN | PInf | NInf | Fin rat

datatype jsval = JUndefined | JNull | JBool bool | JNum jsnum | JStr string
  | JArr "jsval list" | JObj "(string \<times> jsval) list"

text \<open>
  What is thrown. An \<open>Error\<close> made by the programs and a \<open>SyntaxError\<close> of \<^verbatim>\<open>res.json()\<close>
  carry their message. A \<open>TypeError\<close> of the engine carries its cause: a property read
  from \<^verbatim>\<open>null\<close> or \<^verbatim>\<open>undefined\<close> (the value and the property), a loop over a value that
  is not iterable, an object that cannot be converted to a primitive value, or an
  assignment to a property of a number (the property). A \<open>SystemError\<close> of the file
  system carries its code. The texts of the last two kinds are the engine's.
\<close>

datatype cause = Read_of_nullish jsval string | Not_iterable jsval | Not_primitive
  | Set_on_number string

datatype error = Error string | TypeError cause | SyntaxError string | SystemError string

fun isNaN :: "jsnum \<Rightarrow> bool" where
  "isNaN NaN = True"
| "isNaN PInf = False"
| "isNaN NInf = False"
| "isNaN (Fin q) = False"

fun isFinite :: "jsnum \<Rightarrow> bool" where
  "isFinite (Fin q) = True"
| "isFinite NaN = False"
| "isFinite PInf = False"
| "isFinite NInf = False"

text \<open>Truthiness, as \<^verbatim>\<open>!x\<close>, \<^verbatim>\<open>x || y\<close> and \<^verbatim>\<open>filter(Boolean)\<close> read it.\<close>

fun truthy :: "jsval \<Rightarrow> bool" where
  "truthy JUndefined = False"
| "truthy JNull = False"
| "truthy (JBool b) = b"
| "truthy (JNum n) = (n \<noteq> NaN \<and> n \<noteq> Fin 0)"
| "truthy (JStr s) = (s \<noteq> [])"
| "truthy (JArr xs) = True"
| "truthy (JObj kvs) = True"

text \<open>
  Property reads. \<open>opt_get v k\<close> is \<^verbatim>\<open>v?.k\<close>; \<open>get v k\<close> is \<^verbatim>\<open>v.k\<close>, which throws a
  TypeError on \<^verbatim>\<open>null\<close> and \<^verbatim>\<open>undefined\<close>. An object holds its own properties (from
  \<^verbatim>\<open>JSON.parse\<close>); the names the programs read (\<^verbatim>\<open>result\<close>, \<^verbatim>\<open>date\<close>, \<^verbatim>\<open>rows\<close>,
  \<^verbatim>\<open>du_name\<close>, \<^verbatim>\<open>fill_rate\<close>, \<^verbatim>\<open>generated_at\<close>, \<^verbatim>\<open>data\<close>, \<^verbatim>\<open>proposal_items\<close>,
  \<^verbatim>\<open>fill_pressure\<close>) are not properties of any built-in prototype, so on a primitive or
  an array they read \<^verbatim>\<open>undefined\<close>.
\<close>

definition opt_get :: "jsval \<Rightarrow> string \<Rightarrow> jsval" where
  "opt_get v k =
     (case v of
        JObj kvs \<Rightarrow> (case map_of kvs k of Some x \<Rightarrow> x | None \<Rightarrow> JUndefined)
      | _ \<Rightarrow> JUndefined)"

definition get :: "jsval \<Rightarrow> string \<Rightarrow> error + jsval" where
  "get v k =
     (if v = JNull \<or> v = JUndefined then Inl (TypeError (Read_of_nullish v k))
      else Inr (opt_get v k))"

text \<open>\<^verbatim>\<open>v ?? d\<close>.\<close>

definition nullish :: "jsval \<Rightarrow> jsval \<Rightarrow> jsval" where
  "nullish v d = (if v = JNull \<or> v = JUndefined then d else v)"

text \<open>
  \<^verbatim>\<open>for (const x of v)\<close>: an array yields its elements, a string yields strings (one per
  code point; here one per byte, and the programs read nothing from them), anything else
  is not iterable.
\<close>

definition iterate :: "jsval \<Rightarrow> error + jsval list" where
  "iterate v =
     (case v of
        JArr xs \<Rightarrow> Inr xs
      | JStr s \<Rightarrow> Inr (map (\<lambda>c. JStr [c]) s)
      | _ \<Rightarrow> Inl (TypeError (Not_iterable v)))"

section \<open>Strings\<close>

fun join :: "string \<Rightarrow> string list \<Rightarrow> string" where
  "join sep [] = []"
| "join sep [x] = x"
| "join sep (x # y # ys) = x @ sep @ join sep (y # ys)"

text \<open>Decimal digits of a natural number, as \<^verbatim>\<open>String(n)\<close> prints an integer.\<close>

fun dec :: "nat \<Rightarrow> string" where
  "dec n = (if n < 10 then [''0123456789'' ! n]
            else dec (n div 10) @ [''0123456789'' ! (n mod 10)])"

declare dec.simps [simp del]

definition dec_int :: "int \<Rightarrow> string" where
  "dec_int i = (if i < 0 then ''-'' @ dec (nat (- i)) else dec (nat i))"

text \<open>\<^verbatim>\<open>s.padStart(n, "0")\<close>.\<close>

definition padStart :: "nat \<Rightarrow> string \<Rightarrow> string" where
  "padStart n s = replicate (n - length s) (CHR ''0'') @ s"

text \<open>
  \<^verbatim>\<open>String.prototype.trim\<close> removes white space and line terminators from both ends:
  U+0009 to U+000D and U+0020 (one byte each), U+00A0 (two bytes), and U+1680, U+2000 to
  U+200A, U+2028, U+2029, U+202F, U+205F, U+3000, U+FEFF (three bytes each).
\<close>

definition ws1 :: "char \<Rightarrow> bool" where
  "ws1 a = (a = CHR 0x09 \<or> a = CHR 0x0A \<or> a = CHR 0x0B \<or> a = CHR 0x0C \<or> a = CHR 0x0D
            \<or> a = CHR 0x20)"

definition ws2 :: "char \<Rightarrow> char \<Rightarrow> bool" where
  "ws2 a b = (a = CHR 0xC2 \<and> b = CHR 0xA0)"

definition ws3 :: "char \<Rightarrow> char \<Rightarrow> char \<Rightarrow> bool" where
  "ws3 a b c =
     ((a = CHR 0xE1 \<and> b = CHR 0x9A \<and> c = CHR 0x80)
      \<or> (a = CHR 0xE2 \<and> b = CHR 0x80 \<and> (of_char c :: nat) \<in> {0x80..0x8A})
      \<or> (a = CHR 0xE2 \<and> b = CHR 0x80 \<and> (c = CHR 0xA8 \<or> c = CHR 0xA9 \<or> c = CHR 0xAF))
      \<or> (a = CHR 0xE2 \<and> b = CHR 0x81 \<and> c = CHR 0x9F)
      \<or> (a = CHR 0xE3 \<and> b = CHR 0x80 \<and> c = CHR 0x80)
      \<or> (a = CHR 0xEF \<and> b = CHR 0xBB \<and> c = CHR 0xBF))"

text \<open>
  \<open>strip p1 p2 p3\<close> drops leading white space, given the tests for its one-, two- and
  three-byte encodings; at the end of a string the same tests are applied to the bytes
  in reverse.
\<close>

fun strip :: "(char \<Rightarrow> bool) \<Rightarrow> (char \<Rightarrow> char \<Rightarrow> bool) \<Rightarrow> (char \<Rightarrow> char \<Rightarrow> char \<Rightarrow> bool)
    \<Rightarrow> string \<Rightarrow> string" where
  "strip p1 p2 p3 (a # b # c # s) =
     (if p1 a then strip p1 p2 p3 (b # c # s)
      else if p2 a b then strip p1 p2 p3 (c # s)
      else if p3 a b c then strip p1 p2 p3 s
      else a # b # c # s)"
| "strip p1 p2 p3 [a, b] =
     (if p1 a then strip p1 p2 p3 [b] else if p2 a b then [] else [a, b])"
| "strip p1 p2 p3 [a] = (if p1 a then [] else [a])"
| "strip p1 p2 p3 [] = []"

definition trim :: "string \<Rightarrow> string" where
  "trim s = rev (strip ws1 (\<lambda>a b. ws2 b a) (\<lambda>a b c. ws3 c b a) (rev (strip ws1 ws2 ws3 s)))"

section \<open>Built-in functions taken as parameters\<close>

text \<open>
  The library functions whose results the programs only pass on are parameters of the
  model, so every theorem holds for each implementation of them:
  \<^item> \<open>StringToNumber\<close>: \<^verbatim>\<open>Number(s)\<close> for a string \<open>s\<close>;
  \<^item> \<open>NumberToString\<close>: \<^verbatim>\<open>String(n)\<close> for a number \<open>n\<close>;
  \<^item> \<open>DateUTC\<close>: \<^verbatim>\<open>new Date(v)\<close> for a primitive value \<open>v\<close>, \<open>None\<close> for an Invalid Date and
    otherwise the UTC year, month (1 to 12) and day of the month;
  \<^item> \<open>localeCompare\<close>: \<^verbatim>\<open>a.localeCompare(b, 'is')\<close>;
  \<^item> \<open>add64\<close>: the sum of two finite numbers in binary64 arithmetic;
  \<^item> \<open>engine_message\<close>: the \<^verbatim>\<open>message\<close> of an error the engine makes.
\<close>

record builtins =
  StringToNumber :: "string \<Rightarrow> jsnum"
  NumberToString :: "jsnum \<Rightarrow> string"
  DateUTC :: "jsval \<Rightarrow> (int \<times> nat \<times> nat) option"
  localeCompare :: "string \<Rightarrow> string \<Rightarrow> int"
  add64 :: "rat \<Rightarrow> rat \<Rightarrow> jsnum"
  engine_message :: "error \<Rightarrow> string"

text \<open>\<^verbatim>\<open>e.message\<close>.\<close>

fun message :: "builtins \<Rightarrow> error \<Rightarrow> string" where
  "message B (Error m) = m"
| "message B (SyntaxError m) = m"
| "message B (TypeError c) = engine_message B (TypeError c)"
| "message B (SystemError c) = engine_message B (SystemError c)"

text \<open>The results of a list of steps, or the first error.\<close>

fun sequence :: "('e + 'a) list \<Rightarrow> 'e + 'a list" where
  "sequence [] = Inr []"
| "sequence (x # xs) =
     (case x of
        Inl e \<Rightarrow> Inl e
      | Inr a \<Rightarrow> (case sequence xs of Inl e \<Rightarrow> Inl e | Inr as \<Rightarrow> Inr (a # as)))"

text \<open>
  \<^verbatim>\<open>String(v)\<close>. An object is converted by its \<^verbatim>\<open>toString\<close> method and then its
  \<^verbatim>\<open>valueOf\<close> method. A plain object inherits both, and the inherited \<^verbatim>\<open>valueOf\<close> gives
  the object itself, which is no primitive value; an own property \<^verbatim>\<open>toString\<close> of a
  parsed object is never a function, and then the conversion throws a TypeError. An
  array is converted by joining the strings of its elements.
\<close>

fun ToString :: "builtins \<Rightarrow> jsval \<Rightarrow> error + string" where
  "ToString B JUndefined = Inr ''undefined''"
| "ToString B JNull = Inr ''null''"
| "ToString B (JBool b) = Inr (if b then ''true'' else ''false'')"
| "ToString B (JNum n) = Inr (NumberToString B n)"
| "ToString B (JStr s) = Inr s"
| "ToString B (JArr xs) =
     (case sequence (map (\<lambda>x. if x = JNull \<or> x = JUndefined then Inr [] else ToString B x) xs) of
        Inl e \<Rightarrow> Inl e
      | Inr ss \<Rightarrow> Inr (join '','' ss))"
| "ToString B (JObj kvs) =
     (if map_of kvs ''toString'' = None then Inr ''[object Object]''
      else Inl (TypeError Not_primitive))"

text \<open>
  The conversion of a value to a primitive value: an array or object becomes its string
  (with either order of \<^verbatim>\<open>toString\<close> and \<^verbatim>\<open>valueOf\<close>), or the conversion throws.
\<close>

definition ToPrimitive :: "builtins \<Rightarrow> jsval \<Rightarrow> error + jsval" where
  "ToPrimitive B v =
     (case v of
        JArr xs \<Rightarrow> (case ToString B v of Inl e \<Rightarrow> Inl e | Inr s \<Rightarrow> Inr (JStr s))
      | JObj kvs \<Rightarrow> (case ToString B v of Inl e \<Rightarrow> Inl e | Inr s \<Rightarrow> Inr (JStr s))
      | _ \<Rightarrow> Inr v)"

text \<open>\<^verbatim>\<open>Number(v)\<close>: an array or object is first converted to a primitive value.\<close>

definition ToNumber :: "builtins \<Rightarrow> jsval \<Rightarrow> error + jsnum" where
  "ToNumber B v =
     (case ToPrimitive B v of
        Inl e \<Rightarrow> Inl e
      | Inr JUndefined \<Rightarrow> Inr NaN
      | Inr JNull \<Rightarrow> Inr (Fin 0)
      | Inr (JBool b) \<Rightarrow> Inr (Fin (if b then 1 else 0))
      | Inr (JNum n) \<Rightarrow> Inr n
      | Inr (JStr s) \<Rightarrow> Inr (StringToNumber B s)
      | Inr p \<Rightarrow> Inr NaN)"

text \<open>
  \<^verbatim>\<open>new Date(v)\<close>: an array or object is first converted to a primitive value; the
  result is \<open>None\<close> for an Invalid Date.
\<close>

definition new_Date :: "builtins \<Rightarrow> jsval \<Rightarrow> error + (int \<times> nat \<times> nat) option" where
  "new_Date B v = (case ToPrimitive B v of Inl e \<Rightarrow> Inl e | Inr p \<Rightarrow> Inr (DateUTC B p))"

text \<open>
  The first ten characters of \<^verbatim>\<open>toISOString()\<close>: the year has four digits when it lies
  in 0 to 9999 and a sign and six digits otherwise.
\<close>

definition iso_year :: "int \<Rightarrow> string" where
  "iso_year y =
     (if 0 \<le> y \<and> y \<le> 9999 then padStart 4 (dec (nat y))
      else (if y < 0 then ''-'' else ''+'') @ padStart 6 (dec (nat \<bar>y\<bar>)))"

fun iso10 :: "int \<times> nat \<times> nat \<Rightarrow> string" where
  "iso10 (y, m, d) = take 10 (iso_year y @ ''-'' @ padStart 2 (dec m) @ ''-'' @ padStart 2 (dec d))"

section \<open>Objects used as dictionaries\<close>

text \<open>
  An object keyed by screen names is a list of its own properties in the order
  \<^verbatim>\<open>Object.keys\<close> and \<^verbatim>\<open>Object.entries\<close> list them: first the keys that are array
  indices (canonical decimal numerals below \<open>2^32 - 1\<close>) in ascending numeric order, then
  the other keys in the order they were created.
\<close>

definition is_digit :: "char \<Rightarrow> bool" where
  "is_digit c = (48 \<le> (of_char c :: nat) \<and> (of_char c :: nat) \<le> 57)"

definition dec_value :: "string \<Rightarrow> nat" where
  "dec_value s = foldl (\<lambda>n c. 10 * n + (of_char c - 48)) 0 s"

definition is_array_index :: "string \<Rightarrow> bool" where
  "is_array_index s =
     (s \<noteq> [] \<and> list_all is_digit s \<and> (s = ''0'' \<or> hd s \<noteq> CHR ''0'')
      \<and> dec_value s \<le> 4294967294)"

fun insert_index :: "string \<Rightarrow> 'a \<Rightarrow> (string \<times> 'a) list \<Rightarrow> (string \<times> 'a) list" where
  "insert_index k v [] = [(k, v)]"
| "insert_index k v ((k', v') # kvs) =
     (if is_array_index k' \<and> dec_value k' < dec_value k
      then (k', v') # insert_index k v kvs
      else (k, v) # (k', v') # kvs)"

text \<open>
  The names every plain object inherits from \<^verbatim>\<open>Object.prototype\<close>. Reading one of them
  from an object that has no such own property gives the inherited function (or, for
  \<^verbatim>\<open>__proto__\<close>, the prototype itself), which is truthy.
\<close>

definition inherited_names :: "string list" where
  "inherited_names =
     [''__proto__'', ''constructor'', ''hasOwnProperty'', ''isPrototypeOf'',
      ''propertyIsEnumerable'', ''toLocaleString'', ''toString'', ''valueOf'',
      ''__defineGetter__'', ''__defineSetter__'', ''__lookupGetter__'', ''__lookupSetter__'']"

definition inherited :: "string \<Rightarrow> bool" where
  "inherited k = (k \<in> set inherited_names)"

text \<open>
  \<^verbatim>\<open>o[k] = v\<close> for a number \<open>v\<close>: the \<^verbatim>\<open>__proto__\<close> setter ignores a number; an existing
  key keeps its place; a new key is placed by the enumeration order.
\<close>

definition obj_set :: "(string \<times> 'a) list \<Rightarrow> string \<Rightarrow> 'a \<Rightarrow> (string \<times> 'a) list" where
  "obj_set ob k v =
     (if k = ''__proto__'' then ob
      else if map_of ob k \<noteq> None then map (\<lambda>(k', v'). if k' = k then (k', v) else (k', v')) ob
      else if is_array_index k then insert_index k v ob
      else ob @ [(k, v)])"

text \<open>
  The numeric properties that the program adds to the objects every plain object
  inherits from, by the name under which \<^verbatim>\<open>map\<close> reaches the object.
\<close>

type_synonym heap = "string \<Rightarrow> (string \<rightharpoonup> jsnum)"

definition heap0 :: heap where
  "heap0 = (\<lambda>k. Map.empty)"

section \<open>The archiver: \<^verbatim>\<open>scripts/archive-fillrate.js\<close>\<close>

subsection \<open>Source Client: \<^verbatim>\<open>getJSON\<close>\<close>

text \<open>
  What \<^verbatim>\<open>fetch\<close> gives: a transport error with its message, or a response. The body of
  a response is either the value \<^verbatim>\<open>resp.json()\<close> parses it to or the message of the
  SyntaxError it throws. The network is a parameter: \<open>fetch k url\<close> is the outcome of the
  \<open>k\<close>-th request of the run when it asks for \<open>url\<close>; \<open>clock k\<close> is \<^verbatim>\<open>Date.now()\<close> then.
\<close>

record response =
  status :: nat
  set_cookie :: "string list option"
  body :: "string + jsval"

datatype outcome = Transport_error string | Response response

definition ok :: "response \<Rightarrow> bool" where
  "ok r = (200 \<le> status r \<and> status r \<le> 299)"

text \<open>
  The body of the \<^verbatim>\<open>try\<close> block after \<^verbatim>\<open>fetch\<close> has settled: the parsed body, or the
  message of what was thrown.
\<close>

definition attempt :: "outcome \<Rightarrow> string + jsval" where
  "attempt out =
     (case out of
        Transport_error m \<Rightarrow> Inl m
      | Response r \<Rightarrow> if \<not> ok r then Inl (''HTTP '' @ dec (status r)) else body r)"

text \<open>
  The loop of \<^verbatim>\<open>getJSON\<close>, from the \<open>k\<close>-th request on, with the reasons \<open>errs\<close> collected
  so far. It gives the value returned or the error thrown, and the addresses it has
  requested, oldest first.
\<close>

fun getJSON_loop :: "(nat \<Rightarrow> string \<Rightarrow> outcome) \<Rightarrow> (nat \<Rightarrow> nat) \<Rightarrow> nat \<Rightarrow> string list
    \<Rightarrow> string list \<Rightarrow> (error + jsval) \<times> string list" where
  "getJSON_loop fetch clock k errs [] =
     (Inl (Error (''All sources failed: '' @ join '' | '' errs)), [])"
| "getJSON_loop fetch clock k errs (u # us) =
     (let url = u @ ''?_='' @ dec (clock k) in
      case attempt (fetch k url) of
        Inr j \<Rightarrow> (Inr j, [url])
      | Inl m \<Rightarrow>
          (case getJSON_loop fetch clock (Suc k) (errs @ [u @ '': '' @ m]) us of
             (res, reqs) \<Rightarrow> (res, url # reqs)))"

definition getJSON :: "(nat \<Rightarrow> string \<Rightarrow> outcome) \<Rightarrow> (nat \<Rightarrow> nat) \<Rightarrow> string list
    \<Rightarrow> error + jsval" where
  "getJSON fetch clock urlList = fst (getJSON_loop fetch clock 0 [] urlList)"

text \<open>The addresses a call of \<^verbatim>\<open>getJSON\<close> requests, oldest first.\<close>

definition requests :: "(nat \<Rightarrow> string \<Rightarrow> outcome) \<Rightarrow> (nat \<Rightarrow> nat) \<Rightarrow> string list
    \<Rightarrow> string list" where
  "requests fetch clock urlList = snd (getJSON_loop fetch clock 0 [] urlList)"

subsection \<open>Normalizer: \<^verbatim>\<open>normalize\<close>\<close>

text \<open>
  The local variables of \<^verbatim>\<open>normalize\<close> (\<^verbatim>\<open>dates\<close> and \<^verbatim>\<open>map\<close> are \<open>dates_acc\<close> and
  \<open>map_acc\<close>), and the value it returns (its \<^verbatim>\<open>map\<close> is \<open>map'\<close>). The object \<^verbatim>\<open>map\<close> holds
  for a screen name the object that holds for a date key the number; it is only ever
  read by key, so it is a map of maps.
\<close>

record nstate =
  dates_acc :: "string list"
  screensOrder :: "string list"
  seen :: "string set"
  map_acc :: "string \<rightharpoonup> (string \<rightharpoonup> jsnum)"

record normalized =
  dates :: "string list"
  screens :: "string list"
  map' :: "string \<rightharpoonup> (string \<rightharpoonup> jsnum)"
  source_generated_at :: jsval

text \<open>\<^verbatim>\<open>String(rec?.du_name ?? "").trim()\<close>.\<close>

definition screen_name :: "builtins \<Rightarrow> jsval \<Rightarrow> error + string" where
  "screen_name B rec =
     (case ToString B (nullish (opt_get rec ''du_name'') (JStr [])) of
        Inl e \<Rightarrow> Inl e
      | Inr s \<Rightarrow> Inr (trim s))"

text \<open>
  \<^verbatim>\<open>map[name] ||= {}; map[name][iso] = v\<close>, for a date key \<open>iso'\<close>. Date keys begin with a
  digit or a sign (lemmas \<open>date_key_iso10\<close> and \<open>date_key_dateISO\<close> below), so they are never
  inherited names themselves. When \<open>name\<close> is not an own key of \<^verbatim>\<open>map\<close>, \<^verbatim>\<open>map[name]\<close> is
  read through \<^verbatim>\<open>Object.prototype\<close>:
  \<^item> for an inherited name it is the inherited object: no own entry is created and the
    value is stored on that object;
  \<^item> for a name that is a date key under which a number was stored on
    \<^verbatim>\<open>Object.prototype\<close> (by a screen named \<^verbatim>\<open>__proto__\<close>) it is that number: when the
    number is not 0 no own entry is created, and the assignment to a property of a
    number throws a TypeError (the file is a module, so its code is strict);
  \<^item> otherwise it is \<^verbatim>\<open>undefined\<close>, and an own entry is created.
\<close>

fun store :: "string \<Rightarrow> string \<Rightarrow> jsnum \<Rightarrow> nstate \<times> heap \<Rightarrow> error + nstate \<times> heap" where
  "store name iso' v (st, h) =
     (case map_acc st name of
        Some inner \<Rightarrow> Inr (st\<lparr>map_acc := (map_acc st)(name \<mapsto> inner(iso' \<mapsto> v))\<rparr>, h)
      | None \<Rightarrow>
          if inherited name then Inr (st, h(name := (h name)(iso' \<mapsto> v)))
          else
            (case h ''__proto__'' name of
               None \<Rightarrow> Inr (st\<lparr>map_acc := (map_acc st)(name \<mapsto> [iso' \<mapsto> v])\<rparr>, h)
             | Some x \<Rightarrow>
                 if truthy (JNum x) then Inl (TypeError (Set_on_number iso'))
                 else Inr (st\<lparr>map_acc := (map_acc st)(name \<mapsto> [iso' \<mapsto> v])\<rparr>, h)))"

text \<open>The body of the inner loop (one row of a day-record).\<close>

fun normalize_row :: "builtins \<Rightarrow> string \<Rightarrow> nstate \<times> heap \<Rightarrow> jsval \<Rightarrow> error + nstate \<times> heap" where
  "normalize_row B iso' (st, h) rec =
     (case screen_name B rec of
        Inl e \<Rightarrow> Inl e
      | Inr name \<Rightarrow>
          if name = [] then Inr (st, h)
          else
            let st1 = (if name \<in> seen st then st
                       else st\<lparr>seen := insert name (seen st),
                               screensOrder := screensOrder st @ [name]\<rparr>)
            in (case ToNumber B (opt_get rec ''fill_rate'') of
                  Inl e \<Rightarrow> Inl e
                | Inr v \<Rightarrow> if \<not> isNaN v then store name iso' v (st1, h) else Inr (st1, h)))"

text \<open>The inner loop.\<close>

fun normalize_rows :: "builtins \<Rightarrow> string \<Rightarrow> nstate \<times> heap \<Rightarrow> jsval list \<Rightarrow> error + nstate \<times> heap" where
  "normalize_rows B iso' s [] = Inr s"
| "normalize_rows B iso' s (rec # recs) =
     (case normalize_row B iso' s rec of
        Inl e \<Rightarrow> Inl e
      | Inr s' \<Rightarrow> normalize_rows B iso' s' recs)"

text \<open>\<^verbatim>\<open>day.rows || []\<close>, iterated.\<close>

definition rows_of :: "jsval \<Rightarrow> error + jsval list" where
  "rows_of day = (let r = opt_get day ''rows'' in if truthy r then iterate r else Inr [])"

text \<open>The body of the outer loop (one day-record).\<close>

fun normalize_day :: "builtins \<Rightarrow> nstate \<times> heap \<Rightarrow> jsval \<Rightarrow> error + nstate \<times> heap" where
  "normalize_day B (st, h) day =
     (case get day ''date'' of
        Inl e \<Rightarrow> Inl e
      | Inr dv \<Rightarrow>
          (case new_Date B dv of
             Inl e \<Rightarrow> Inl e
           | Inr None \<Rightarrow> Inr (st, h)
           | Inr (Some d) \<Rightarrow>
               let iso' = iso10 d;
                   st1 = st\<lparr>dates_acc := dates_acc st @ [iso']\<rparr>
               in (case rows_of day of
                     Inl e \<Rightarrow> Inl e
                   | Inr recs \<Rightarrow> normalize_rows B iso' (st1, h) recs)))"

fun normalize_days :: "builtins \<Rightarrow> nstate \<times> heap \<Rightarrow> jsval list \<Rightarrow> error + nstate \<times> heap" where
  "normalize_days B s [] = Inr s"
| "normalize_days B s (day # days) =
     (case normalize_day B s day of
        Inl e \<Rightarrow> Inl e
      | Inr s' \<Rightarrow> normalize_days B s' days)"

definition nstate0 :: nstate where
  "nstate0 = \<lparr>dates_acc = [], screensOrder = [], seen = {}, map_acc = Map.empty\<rparr>"

definition normalize :: "builtins \<Rightarrow> heap \<Rightarrow> jsval \<Rightarrow> error + normalized \<times> heap" where
  "normalize B h raw =
     (case (if truthy raw then opt_get raw ''result'' else JUndefined) of
        JArr days \<Rightarrow>
          (case normalize_days B (nstate0, h) days of
             Inl e \<Rightarrow> Inl e
           | Inr (st, h') \<Rightarrow>
               Inr (\<lparr>dates = dates_acc st, screens = screensOrder st,
                     map' = map_acc st,
                     source_generated_at = nullish (opt_get raw ''generated_at'') JNull\<rparr>, h'))
      | _ \<Rightarrow> Inl (Error ''Unsupported JSON shape, expected {result:[...]}''))"

subsection \<open>Snapshot Extractor: \<^verbatim>\<open>snapshotForDate\<close>\<close>

text \<open>
  \<^verbatim>\<open>m?.[s]?.[iso]\<close> for the object \<open>m\<close> of the Normalizer and a date key, when it is a
  number. An own entry of \<open>m\<close> is a plain object, which inherits from
  \<^verbatim>\<open>Object.prototype\<close>; an inherited name reaches the inherited object, which has the
  numbers stored on it and inherits from \<^verbatim>\<open>Object.prototype\<close> too; a name under which a
  number was stored on \<^verbatim>\<open>Object.prototype\<close> reaches that number, whose properties are
  read through \<^verbatim>\<open>Number.prototype\<close> from \<^verbatim>\<open>Object.prototype\<close>.
\<close>

definition lookup_number :: "heap \<Rightarrow> (string \<rightharpoonup> (string \<rightharpoonup> jsnum)) \<Rightarrow> string \<Rightarrow> string
    \<Rightarrow> jsnum option" where
  "lookup_number h m s iso' =
     (case m s of
        Some inner \<Rightarrow> (case inner iso' of Some v \<Rightarrow> Some v | None \<Rightarrow> h ''__proto__'' iso')
      | None \<Rightarrow>
          if inherited s
          then (case h s iso' of Some v \<Rightarrow> Some v | None \<Rightarrow> h ''__proto__'' iso')
          else (case h ''__proto__'' s of Some x \<Rightarrow> h ''__proto__'' iso' | None \<Rightarrow> None))"

definition snapshotForDate :: "heap \<Rightarrow> normalized \<Rightarrow> string \<Rightarrow> (string \<times> jsnum) list" where
  "snapshotForDate h norm' iso' =
     foldl (\<lambda>out s. case lookup_number h (map' norm') s iso' of
                       Some v \<Rightarrow> obj_set out s v
                     | None \<Rightarrow> out)
       [] (screens norm')"

subsection \<open>CSV rows: \<^verbatim>\<open>toCSVRows\<close>\<close>

text \<open>
  \<^verbatim>\<open>Array.prototype.sort\<close> with a comparator is stable; with a comparator that is
  consistent its result is the one computed here by insertion, where an element is
  placed before the first one it is strictly smaller than.
\<close>

fun insort_cmp :: "('a \<Rightarrow> 'a \<Rightarrow> int) \<Rightarrow> 'a \<Rightarrow> 'a list \<Rightarrow> 'a list" where
  "insort_cmp c x [] = [x]"
| "insort_cmp c x (y # ys) = (if c x y < 0 then x # y # ys else y # insort_cmp c x ys)"

definition sort_cmp :: "('a \<Rightarrow> 'a \<Rightarrow> int) \<Rightarrow> 'a list \<Rightarrow> 'a list" where
  "sort_cmp c xs = foldl (\<lambda>acc x. insort_cmp c x acc) [] xs"

definition csv_escape :: "string \<Rightarrow> string" where
  "csv_escape field =
     (if list_ex (\<lambda>c. c = CHR 0x22 \<or> c = CHR '','' \<or> c = CHR 0x0A) field
      then [CHR 0x22] @ concat (map (\<lambda>c. if c = CHR 0x22 then [CHR 0x22, CHR 0x22] else [c]) field)
           @ [CHR 0x22]
      else field)"

definition toCSVRows :: "builtins \<Rightarrow> string \<Rightarrow> (string \<times> jsnum) list \<Rightarrow> string" where
  "toCSVRows B iso' obj =
     (let screens = sort_cmp (localeCompare B) (map fst obj);
          rows = [''date'', ''screen'', ''fill_rate'']
                 # map (\<lambda>s. [iso', s, (case map_of obj s of Some v \<Rightarrow> NumberToString B v
                                       | None \<Rightarrow> ''undefined'')]) screens
      in join [CHR 0x0A] (map (\<lambda>r. join '','' (map csv_escape r)) rows))"

subsection \<open>The file system\<close>

text \<open>
  A path is the list of its segments below the working directory. The file system maps
  a path to a file with its content or to a directory. \<open>denied\<close> holds the paths on which
  the system refuses to make a directory or to write a file; for a refused write of a
  file, \<open>cut\<close> says how it fails: \<open>None\<close> when the file cannot be opened (no permission),
  \<open>Some k\<close> when the file is opened, which creates or empties it, and the write stops
  after \<open>k\<close> bytes (no space, an input-output error). \<open>ops\<close> is the trace of the changes
  made, oldest first. The content of a file is a text, or \<open>JSON_text v\<close>: the text
  \<^verbatim>\<open>JSON.stringify(v, null, 2)\<close>, or \<open>Partial c k\<close>: the first \<open>k\<close> bytes of the content
  \<open>c\<close>.
\<close>

type_synonym path = "string list"

datatype content = Text string | JSON_text jsval | Partial content nat

datatype node = File content | Dir

datatype fs_op = Mkdir path | WriteFile path content

record world =
  nodes :: "path \<rightharpoonup> node"
  denied :: "path \<Rightarrow> bool"
  cut :: "path \<Rightarrow> nat option"
  ops :: "fs_op list"

definition existsSync :: "world \<Rightarrow> path \<Rightarrow> bool" where
  "existsSync w p = (nodes w p \<noteq> None)"

definition is_dir :: "world \<Rightarrow> path \<Rightarrow> bool" where
  "is_dir w p = (p = [] \<or> nodes w p = Some Dir)"

text \<open>
  \<^verbatim>\<open>fs.mkdirSync(p, { recursive: true })\<close>: every missing ancestor is created, then \<open>p\<close>.
  The directories made before a failure stay. A file in the place of \<open>p\<close> gives the code
  \<^verbatim>\<open>EEXIST\<close>, a file in the place of an ancestor the code \<^verbatim>\<open>ENOTDIR\<close>.
\<close>

fun mkdirs :: "path list \<Rightarrow> world \<Rightarrow> (error + unit) \<times> world" where
  "mkdirs [] w = (Inr (), w)"
| "mkdirs (q # qs) w =
     (case nodes w q of
        Some Dir \<Rightarrow> mkdirs qs w
      | Some (File c) \<Rightarrow> (Inl (SystemError (if qs = [] then ''EEXIST'' else ''ENOTDIR'')), w)
      | None \<Rightarrow>
          if denied w q then (Inl (SystemError ''EACCES''), w)
          else mkdirs qs (w\<lparr>nodes := (nodes w)(q \<mapsto> Dir), ops := ops w @ [Mkdir q]\<rparr>))"

definition mkdirSync :: "world \<Rightarrow> path \<Rightarrow> (error + unit) \<times> world" where
  "mkdirSync w p = mkdirs (map (\<lambda>n. take n p) [1..<Suc (length p)]) w"

text \<open>
  \<^verbatim>\<open>fs.writeFileSync(p, c, "utf8")\<close>: the file is opened for writing, which creates it or
  empties it, and then written. A failure to open changes nothing; a failure of the
  write leaves the file with the bytes written so far.
\<close>

definition writeFileSync :: "world \<Rightarrow> path \<Rightarrow> content \<Rightarrow> (error + unit) \<times> world" where
  "writeFileSync w p c =
     (if nodes w p = Some Dir then (Inl (SystemError ''EISDIR''), w)
      else if \<not> is_dir w (butlast p)
        then (Inl (SystemError (if nodes w (butlast p) = None then ''ENOENT'' else ''ENOTDIR'')), w)
      else if denied w p
        then (case cut w p of
                None \<Rightarrow> (Inl (SystemError ''EACCES''), w)
              | Some k \<Rightarrow>
                  (Inl (SystemError ''ENOSPC''),
                   w\<lparr>nodes := (nodes w)(p \<mapsto> File (Partial c k)),
                     ops := ops w @ [WriteFile p (Partial c k)]\<rparr>))
      else (Inr (), w\<lparr>nodes := (nodes w)(p \<mapsto> File c), ops := ops w @ [WriteFile p c]\<rparr>))"

subsection \<open>Archive Writer: \<^verbatim>\<open>main\<close>\<close>

text \<open>
  The messages written to the console are left out. What a run reads from outside: the
  three environment variables with the source
  locations, the UTC year, month and day of \<^verbatim>\<open>now\<close>, the network, the clock, and the
  time stamp \<^verbatim>\<open>new Date().toISOString()\<close> taken when the payload is built.
\<close>

record run_input =
  env_urls :: "string option list"
  now :: "int \<times> nat \<times> nat"
  fetch :: "nat \<Rightarrow> string \<Rightarrow> outcome"
  clock :: "nat \<Rightarrow> nat"
  archived_at :: string

text \<open>\<^verbatim>\<open>[...].filter(Boolean)\<close>: unset and empty variables are left out.\<close>

definition urls :: "run_input \<Rightarrow> string list" where
  "urls I = concat (map (\<lambda>u. case u of None \<Rightarrow> [] | Some s \<Rightarrow> if s = [] then [] else [s])
              (env_urls I))"

definition yyyy :: "run_input \<Rightarrow> string" where
  "yyyy I = (case now I of (y, m, d) \<Rightarrow> dec_int y)"

definition mm :: "run_input \<Rightarrow> string" where
  "mm I = (case now I of (y, m, d) \<Rightarrow> padStart 2 (dec m))"

definition dd :: "run_input \<Rightarrow> string" where
  "dd I = (case now I of (y, m, d) \<Rightarrow> padStart 2 (dec d))"

definition dateISO :: "run_input \<Rightarrow> string" where
  "dateISO I = yyyy I @ ''-'' @ mm I @ ''-'' @ dd I"

definition outDir :: "run_input \<Rightarrow> path" where
  "outDir I = [''logs'', yyyy I, mm I]"

definition outJson :: "run_input \<Rightarrow> path" where
  "outJson I = outDir I @ [dateISO I @ ''.json'']"

definition outCsv :: "run_input \<Rightarrow> path" where
  "outCsv I = outDir I @ [dateISO I @ ''.csv'']"

definition payload :: "run_input \<Rightarrow> normalized \<Rightarrow> (string \<times> jsnum) list \<Rightarrow> jsval" where
  "payload I norm' dataToday =
     JObj [(''date'', JStr (dateISO I)),
           (''generated_at'', source_generated_at norm'),
           (''count'', JNum (Fin (of_nat (length dataToday)))),
           (''rows'', JArr (map (\<lambda>(screen, fill_rate).
                        JObj [(''screen'', JStr screen), (''fill_rate'', JNum fill_rate)]) dataToday)),
           (''meta'', JObj [(''note'',
                        JStr ''Values are 0..1 fill rates; >=0.934 considered 'sold out' by UI.''),
                      (''source_urls'', JArr (map JStr (urls I))),
                      (''archived_at_utc'', JStr (archived_at I))])]"

definition main :: "builtins \<Rightarrow> run_input \<Rightarrow> world \<Rightarrow> (error + unit) \<times> world" where
  "main B I w =
     (if existsSync w (outJson I) then (Inr (), w)
      else
        (case getJSON (fetch I) (clock I) (urls I) of
           Inl e \<Rightarrow> (Inl e, w)
         | Inr raw \<Rightarrow>
             (case normalize B heap0 raw of
                Inl e \<Rightarrow> (Inl e, w)
              | Inr (norm', h) \<Rightarrow>
                  let dataToday = snapshotForDate h norm' (dateISO I) in
                  (case mkdirSync w (outDir I) of
                     (Inl e, w1) \<Rightarrow> (Inl e, w1)
                   | (Inr u, w1) \<Rightarrow>
                       (case writeFileSync w1 (outJson I)
                               (JSON_text (payload I norm' dataToday)) of
                          (Inl e, w2) \<Rightarrow> (Inl e, w2)
                        | (Inr u', w2) \<Rightarrow>
                            (case writeFileSync w2 (outCsv I)
                                    (Text (toCSVRows B (dateISO I) dataToday @ [CHR 0x0A])) of
                               (Inl e, w3) \<Rightarrow> (Inl e, w3)
                             | (Inr u'', w3) \<Rightarrow> (Inr (), w3)))))))"

text \<open>
  The process: \<^verbatim>\<open>main().catch(err => { ...; process.exit(1) })\<close>. The exit status is 1
  when \<^verbatim>\<open>main\<close> throws and 0 when it returns.
\<close>

definition run :: "builtins \<Rightarrow> run_input \<Rightarrow> world \<Rightarrow> nat \<times> world" where
  "run B I w = (case main B I w of (Inl e, w') \<Rightarrow> (1, w') | (Inr u, w') \<Rightarrow> (0, w'))"

text \<open>The file writes among the operations that lead from \<open>w\<close> to \<open>w'\<close>, oldest first.\<close>

definition written :: "world \<Rightarrow> world \<Rightarrow> fs_op list" where
  "written w w' =
     filter (\<lambda>op. case op of WriteFile p c \<Rightarrow> True | Mkdir p \<Rightarrow> False)
       (drop (length (ops w)) (ops w'))"

section \<open>The forecast generator: \<^verbatim>\<open>generate.mjs\<close>\<close>

text \<open>
  A request to the vendor is the login or a call of the reporting API with its path, its
  JSON payload and its \<^verbatim>\<open>Cookie\<close> header. The state is the module's \<^verbatim>\<open>sessionCookie\<close> and
  the trace of the requests made, oldest first. The vendor is a parameter: \<open>V k req\<close> is
  the outcome of request \<open>req\<close> made after \<open>k\<close> earlier ones.
  The check of the environment variables at start-up, the messages written to the
  console and the writing of the forecast file are left out.
\<close>

datatype request = Login | Api string jsval string

record session =
  sessionCookie :: "string option"
  calls :: "request list"

type_synonym vendor = "nat \<Rightarrow> request \<Rightarrow> outcome"

definition vfetch :: "vendor \<Rightarrow> request \<Rightarrow> session \<Rightarrow> outcome \<times> session" where
  "vfetch V req w = (V (length (calls w)) req, w\<lparr>calls := calls w @ [req]\<rparr>)"

text \<open>\<^verbatim>\<open>/^session=/i\<close>.\<close>

definition is_session :: "string \<Rightarrow> bool" where
  "is_session c =
     (8 \<le> length c
      \<and> list_all2 (\<lambda>x (l, u). x = l \<or> x = u) (take 8 c) (zip ''session='' ''SESSION=''))"

text \<open>\<^verbatim>\<open>cookies?.find(c => /^session=/i.test(c))?.split(";")[0]\<close>.\<close>

definition session_of :: "response \<Rightarrow> string option" where
  "session_of res =
     (case set_cookie res of
        None \<Rightarrow> None
      | Some cookies \<Rightarrow>
          (case find is_session cookies of
             None \<Rightarrow> None
           | Some c \<Rightarrow> Some (takeWhile (\<lambda>x. x \<noteq> CHR '';'') c)))"

definition login :: "vendor \<Rightarrow> session \<Rightarrow> (error + unit) \<times> session" where
  "login V w =
     (case vfetch V Login w of
        (Transport_error m, w1) \<Rightarrow> (Inl (Error m), w1)
      | (Response res, w1) \<Rightarrow>
          (case session_of res of
             None \<Rightarrow> (Inl (Error (''Login failed ('' @ dec (status res) @ '')'')), w1)
           | Some sess \<Rightarrow> (Inr (), w1\<lparr>sessionCookie := Some sess\<rparr>)))"

text \<open>\<^verbatim>\<open>res.json()\<close>.\<close>

definition json :: "response \<Rightarrow> error + jsval" where
  "json res = (case body res of Inl m \<Rightarrow> Inl (SyntaxError m) | Inr j \<Rightarrow> Inr j)"

text \<open>The \<^verbatim>\<open>Cookie\<close> header sent: the session cookie, or the text of \<^verbatim>\<open>null\<close>.\<close>

definition cookie_header :: "session \<Rightarrow> string" where
  "cookie_header w = (case sessionCookie w of Some c \<Rightarrow> c | None \<Rightarrow> ''null'')"

function direct :: "vendor \<Rightarrow> string \<Rightarrow> jsval \<Rightarrow> bool \<Rightarrow> session \<Rightarrow> (error + jsval) \<times> session" where
  "direct V path' options retried w =
     (case (if sessionCookie w = None then login V w else (Inr (), w)) of
        (Inl e, w1) \<Rightarrow> (Inl e, w1)
      | (Inr u, w1) \<Rightarrow>
          (case vfetch V (Api path' options (cookie_header w1)) w1 of
             (Transport_error m, w2) \<Rightarrow> (Inl (Error m), w2)
           | (Response res, w2) \<Rightarrow>
               if status res = 401 \<and> \<not> retried
               then (case login V (w2\<lparr>sessionCookie := None\<rparr>) of
                       (Inl e, w3) \<Rightarrow> (Inl e, w3)
                     | (Inr u', w3) \<Rightarrow> direct V path' options True w3)
               else (json res, w2)))"
  by pat_completeness auto

termination
  by (relation "measure (\<lambda>(V, p, opts, retried, w). if retried then 0 else 1)") auto

declare direct.simps [simp del]

definition buildPayload :: "string \<Rightarrow> nat \<Rightarrow> jsval" where
  "buildPayload date screenId =
     JObj [(''start_date'', JStr date), (''end_date'', JStr date),
           (''start_time'', JStr ''00:00:00''), (''end_time'', JStr ''23:59:59''),
           (''time_interval'', JStr ''day''), (''inventory_type'', JStr ''digital''),
           (''screen_ids'', JArr [JNum (Fin (of_nat screenId))])]"

definition extractItems :: "jsval \<Rightarrow> jsval list" where
  "extractItems resp =
     (case opt_get (opt_get resp ''data'') ''proposal_items'' of
        JArr xs \<Rightarrow> xs
      | _ \<Rightarrow> (case opt_get resp ''proposal_items'' of JArr ys \<Rightarrow> ys | _ \<Rightarrow> []))"

text \<open>
  Addition, \<^verbatim>\<open>Math.max\<close> and \<^verbatim>\<open>Math.min\<close> on numbers. The sum of two finite numbers is
  the built-in \<open>add64\<close>; the sums with \<open>NaN\<close> and the infinities are those of IEEE 754.
\<close>

fun js_add :: "builtins \<Rightarrow> jsnum \<Rightarrow> jsnum \<Rightarrow> jsnum" where
  "js_add B (Fin a) (Fin b) = add64 B a b"
| "js_add B NaN y = NaN"
| "js_add B x NaN = NaN"
| "js_add B PInf NInf = NaN"
| "js_add B NInf PInf = NaN"
| "js_add B PInf y = PInf"
| "js_add B x PInf = PInf"
| "js_add B NInf y = NInf"
| "js_add B x NInf = NInf"

fun js_le :: "jsnum \<Rightarrow> jsnum \<Rightarrow> bool" where
  "js_le NaN y = False"
| "js_le x NaN = False"
| "js_le NInf y = True"
| "js_le x PInf = True"
| "js_le (Fin a) (Fin b) = (a \<le> b)"
| "js_le x y = False"

definition Math_max :: "jsnum \<Rightarrow> jsnum \<Rightarrow> jsnum" where
  "Math_max a b = (if isNaN a \<or> isNaN b then NaN else if js_le a b then b else a)"

definition Math_min :: "jsnum \<Rightarrow> jsnum \<Rightarrow> jsnum" where
  "Math_min a b = (if isNaN a \<or> isNaN b then NaN else if js_le a b then a else b)"

text \<open>\<^verbatim>\<open>n || 0\<close> for a number \<open>n\<close>.\<close>

definition or0 :: "jsnum \<Rightarrow> jsnum" where
  "or0 n = (if isNaN n \<or> n = Fin 0 then Fin 0 else n)"

text \<open>\<^verbatim>\<open>items.reduce((a, b) => a + (Number(b.fill_pressure) || 0), a0)\<close>.\<close>

fun reduce_fill :: "builtins \<Rightarrow> jsnum \<Rightarrow> jsval list \<Rightarrow> error + jsnum" where
  "reduce_fill B a [] = Inr a"
| "reduce_fill B a (b # bs) =
     (case get b ''fill_pressure'' of
        Inl e \<Rightarrow> Inl e
      | Inr p \<Rightarrow>
          (case ToNumber B p of
             Inl e \<Rightarrow> Inl e
           | Inr n \<Rightarrow> reduce_fill B (js_add B a (or0 n)) bs))"

text \<open>The value returned is \<^verbatim>\<open>{ screenId, fill, count }\<close>.\<close>

definition getFillForScreen :: "vendor \<Rightarrow> builtins \<Rightarrow> nat \<Rightarrow> string \<Rightarrow> session
    \<Rightarrow> (error + nat \<times> jsnum \<times> nat) \<times> session" where
  "getFillForScreen V B screenId date w =
     (case direct V ''/api/v1/reporting/fill_rate_breakdown'' (buildPayload date screenId) False w of
        (Inl e, w') \<Rightarrow> (Inl e, w')
      | (Inr resp, w') \<Rightarrow>
          let items = extractItems resp in
          (case reduce_fill B (Fin 0) items of
             Inl e \<Rightarrow> (Inl e, w')
           | Inr acc \<Rightarrow>
               (Inr (screenId, Math_min (Fin 1) (Math_max (Fin 0) acc), length items), w')))"

text \<open>
  A row of the forecast: \<^verbatim>\<open>{ id, du_name, fill_rate, rows_seen }\<close> or
  \<^verbatim>\<open>{ id, du_name, fill_rate, error }\<close>. The table of screens of the source is the
  parameter \<open>screens'\<close> below, a list of identifiers with their names, and \<open>allDays\<close> is
  the list of the thirty dates.
\<close>

record row =
  id' :: nat
  du_name :: string
  fill_rate :: jsnum
  rows_seen :: "nat option"
  error' :: "string option"

text \<open>The body of the inner loop of \<^verbatim>\<open>main\<close>: the \<^verbatim>\<open>try\<close> and its \<^verbatim>\<open>catch\<close>.\<close>

fun screen_row :: "vendor \<Rightarrow> builtins \<Rightarrow> string \<Rightarrow> nat \<times> string \<Rightarrow> session \<Rightarrow> row \<times> session" where
  "screen_row V B date (sid, name) w =
     (case getFillForScreen V B sid date w of
        (Inr (screenId, fill, count'), w') \<Rightarrow>
          (\<lparr>id' = sid, du_name = name, fill_rate = fill, rows_seen = Some count', error' = None\<rparr>, w')
      | (Inl e, w') \<Rightarrow>
          (\<lparr>id' = sid, du_name = name, fill_rate = Fin 0, rows_seen = None,
            error' = Some (message B e)\<rparr>, w'))"

fun day_rows :: "vendor \<Rightarrow> builtins \<Rightarrow> string \<Rightarrow> (nat \<times> string) list \<Rightarrow> session
    \<Rightarrow> row list \<times> session" where
  "day_rows V B date [] w = ([], w)"
| "day_rows V B date (s # ss) w =
     (case screen_row V B date s w of
        (r, w1) \<Rightarrow> (case day_rows V B date ss w1 of (rs, w2) \<Rightarrow> (r # rs, w2)))"

text \<open>The array \<^verbatim>\<open>result\<close> of \<^verbatim>\<open>main\<close>: one \<^verbatim>\<open>{ date, count, rows }\<close> per date.\<close>

fun forecast :: "vendor \<Rightarrow> builtins \<Rightarrow> string list \<Rightarrow> (nat \<times> string) list \<Rightarrow> session
    \<Rightarrow> (string \<times> nat \<times> row list) list \<times> session" where
  "forecast V B [] screens' w = ([], w)"
| "forecast V B (date # ds) screens' w =
     (case day_rows V B date screens' w of
        (rows, w1) \<Rightarrow>
          (case forecast V B ds screens' w1 of
             (res, w2) \<Rightarrow> ((date, length rows, rows) # res, w2)))"

section \<open>Notions of the specification\<close>

text \<open>
  What the specification calls the first-seen order of a sequence of names: every name
  once, at the place of its first occurrence.
\<close>

fun first_seen :: "'a list \<Rightarrow> 'a list" where
  "first_seen [] = []"
| "first_seen (x # xs) = x # filter (\<lambda>y. y \<noteq> x) (first_seen xs)"

text \<open>
  The screen names a feed presents, in the order of the feed: for every day-record whose
  date parses, the trimmed, non-empty names of its rows.
\<close>

definition row_names :: "builtins \<Rightarrow> jsval \<Rightarrow> string list" where
  "row_names B rec =
     (case screen_name B rec of Inr name \<Rightarrow> if name = [] then [] else [name] | Inl e \<Rightarrow> [])"

definition day_names :: "builtins \<Rightarrow> jsval \<Rightarrow> string list" where
  "day_names B day =
     (case new_Date B (opt_get day ''date'') of
        Inr (Some d) \<Rightarrow>
          (case rows_of day of
             Inl e \<Rightarrow> []
           | Inr recs \<Rightarrow> concat (map (row_names B) recs))
      | _ \<Rightarrow> [])"

definition feed_names :: "builtins \<Rightarrow> jsval \<Rightarrow> string list" where
  "feed_names B raw =
     (case opt_get raw ''result'' of
        JArr days \<Rightarrow> concat (map (day_names B) days)
      | _ \<Rightarrow> [])"

text \<open>
  The contents that \<^verbatim>\<open>main\<close> writes to the JSON artifact and to the CSV artifact when the
  Normalizer has returned \<open>n\<close> and left the heap \<open>h\<close>.
\<close>

definition json_content :: "run_input \<Rightarrow> normalized \<Rightarrow> heap \<Rightarrow> content" where
  "json_content I n h = JSON_text (payload I n (snapshotForDate h n (dateISO I)))"

definition csv_content :: "builtins \<Rightarrow> run_input \<Rightarrow> normalized \<Rightarrow> heap \<Rightarrow> content" where
  "csv_content B I n h =
     Text (toCSVRows B (dateISO I) (snapshotForDate h n (dateISO I)) @ [CHR 0x0A])"

text \<open>The shape of a date key: it begins with a digit or a sign.\<close>

definition date_key :: "string \<Rightarrow> bool" where
  "date_key s = (s \<noteq> [] \<and> (is_digit (hd s) \<or> hd s = CHR ''+'' \<or> hd s = CHR ''-''))"

text \<open>
  A name is shadowed when \<^verbatim>\<open>map[name]\<close> reads a number other than 0 through
  \<^verbatim>\<open>Object.prototype\<close>.
\<close>

definition shadowed :: "nstate \<Rightarrow> heap \<Rightarrow> string \<Rightarrow> bool" where
  "shadowed st h name =
     (map_acc st name = None \<and> \<not> inherited name
      \<and> (case h ''__proto__'' name of None \<Rightarrow> False | Some x \<Rightarrow> truthy (JNum x)))"

text \<open>No number held by the object \<^verbatim>\<open>map\<close> or stored on an inherited object is \<open>NaN\<close>.\<close>

definition no_NaN :: "(string \<rightharpoonup> (string \<rightharpoonup> jsnum)) \<Rightarrow> heap \<Rightarrow> bool" where
  "no_NaN m h =
     ((\<forall>s inner d v. m s = Some inner \<longrightarrow> inner d = Some v \<longrightarrow> \<not> isNaN v)
      \<and> (\<forall>s d v. h s d = Some v \<longrightarrow> \<not> isNaN v))"

section \<open>Sample built-ins and inputs\<close>

text \<open>
  One implementation of the built-in parameters, for evaluating the programs on concrete
  inputs. It is only ever applied where it gives what the JavaScript function gives:
  \<open>sample_StringToNumber\<close> to strings of digits, \<^verbatim>\<open>Infinity\<close> and words that are no
  numerals; \<open>sample_NumberToString\<close> to numbers with at most three decimals;
  \<open>sample_DateUTC\<close> to \<^verbatim>\<open>undefined\<close> and to date-only forms \<^verbatim>\<open>YYYY-MM-DD\<close>;
  \<open>sample_localeCompare\<close> (the order of the bytes) to names of unaccented letters of one
  case; \<open>sample_add64\<close> (the exact sum) to numbers whose sum binary64 holds exactly; and
  \<open>sample_engine_message\<close> (the texts of Node 16 and later) to a read from \<^verbatim>\<open>null\<close> or
  \<^verbatim>\<open>undefined\<close> and to a failed conversion to a primitive value.
\<close>

definition sample_StringToNumber :: "string \<Rightarrow> jsnum" where
  "sample_StringToNumber s =
     (let t = trim s in
      if t = [] then Fin 0
      else if t = ''Infinity'' \<or> t = ''+Infinity'' then PInf
      else if t = ''-Infinity'' then NInf
      else if list_all is_digit t then Fin (of_nat (dec_value t))
      else NaN)"

definition sample_NumberToString :: "jsnum \<Rightarrow> string" where
  "sample_NumberToString n =
     (case n of
        NaN \<Rightarrow> ''NaN''
      | PInf \<Rightarrow> ''Infinity''
      | NInf \<Rightarrow> ''-Infinity''
      | Fin q \<Rightarrow>
          (let t = nat \<lfloor>\<bar>q\<bar> * 1000\<rfloor>;
               frac = rev (dropWhile (\<lambda>c. c = CHR ''0'') (rev (padStart 3 (dec (t mod 1000)))))
           in (if q < 0 then ''-'' else []) @ dec (t div 1000)
              @ (if frac = [] then [] else ''.'' @ frac)))"

definition sample_DateUTC :: "jsval \<Rightarrow> (int \<times> nat \<times> nat) option" where
  "sample_DateUTC v =
     (case v of
        JStr s \<Rightarrow>
          (if length s = 10 \<and> s ! 4 = CHR ''-'' \<and> s ! 7 = CHR ''-''
              \<and> list_all is_digit (take 4 s @ take 2 (drop 5 s) @ drop 8 s)
              \<and> 1 \<le> dec_value (take 2 (drop 5 s)) \<and> dec_value (take 2 (drop 5 s)) \<le> 12
              \<and> 1 \<le> dec_value (drop 8 s) \<and> dec_value (drop 8 s) \<le> 28
           then Some (int (dec_value (take 4 s)), dec_value (take 2 (drop 5 s)), dec_value (drop 8 s))
           else None)
      | _ \<Rightarrow> None)"

fun sample_localeCompare :: "string \<Rightarrow> string \<Rightarrow> int" where
  "sample_localeCompare [] [] = 0"
| "sample_localeCompare [] (y # ys) = - 1"
| "sample_localeCompare (x # xs) [] = 1"
| "sample_localeCompare (x # xs) (y # ys) =
     (if (of_char x :: nat) < of_char y then - 1
      else if (of_char y :: nat) < of_char x then 1
      else sample_localeCompare xs ys)"

definition sample_add64 :: "rat \<Rightarrow> rat \<Rightarrow> jsnum" where
  "sample_add64 a b = Fin (a + b)"

fun sample_engine_message :: "error \<Rightarrow> string" where
  "sample_engine_message (TypeError (Read_of_nullish v k)) =
     ''Cannot read properties of '' @ (if v = JNull then ''null'' else ''undefined'')
       @ '' (reading '' @ [CHR 0x27] @ k @ [CHR 0x27] @ '')''"
| "sample_engine_message (TypeError Not_primitive) = ''Cannot convert object to primitive value''"
| "sample_engine_message (TypeError c) = ''TypeError''"
| "sample_engine_message (SystemError c) = c"
| "sample_engine_message (Error m) = m"
| "sample_engine_message (SyntaxError m) = m"

definition sample_builtins :: builtins where
  "sample_builtins =
     \<lparr>StringToNumber = sample_StringToNumber, NumberToString = sample_NumberToString,
      DateUTC = sample_DateUTC, localeCompare = sample_localeCompare,
      add64 = sample_add64, engine_message = sample_engine_message\<rparr>"

text \<open>
  Two networks for the Source Client, and the clock of the requests. Both answer by the
  address requested and know the addresses \<^verbatim>\<open>X?_=1709251200000\<close> and
  \<^verbatim>\<open>Y?_=1709251200001\<close> only: the first answers the one with status 500 and the other
  with a feed; the second answers the one with status 500 and cannot reach the other.
\<close>

definition clock_example :: "nat \<Rightarrow> nat" where
  "clock_example k = 1709251200000 + k"

definition fetch_500_then_ok :: "nat \<Rightarrow> string \<Rightarrow> outcome" where
  "fetch_500_then_ok k url =
     (if url = ''X?_=1709251200000''
      then Response \<lparr>status = 500, set_cookie = None, body = Inl ''Unexpected token''\<rparr>
      else if url = ''Y?_=1709251200001''
      then Response \<lparr>status = 200, set_cookie = None, body = Inr (JObj [(''result'', JArr [])])\<rparr>
      else Transport_error ''getaddrinfo ENOTFOUND'')"

definition fetch_all_fail :: "nat \<Rightarrow> string \<Rightarrow> outcome" where
  "fetch_all_fail k url =
     (if url = ''X?_=1709251200000''
      then Response \<lparr>status = 500, set_cookie = None, body = Inl ''Unexpected token''\<rparr>
      else if url = ''Y?_=1709251200001''
      then Transport_error ''fetch failed''
      else Transport_error ''getaddrinfo ENOTFOUND'')"

text \<open>
  A run of the archiver on 1 March 2024 in an empty working directory, with one source
  location that serves the feed
  \<^verbatim>\<open>{result:[{date:"2024-03-01", rows:[{du_name:"A", fill_rate:0.5},{du_name:"B", fill_rate:"bad"}]}]}\<close>.
\<close>

definition feed_example :: jsval where
  "feed_example =
     JObj [(''result'', JArr [JObj [(''date'', JStr ''2024-03-01''),
       (''rows'', JArr [JObj [(''du_name'', JStr ''A''), (''fill_rate'', JNum (Fin (1 / 2)))],
                        JObj [(''du_name'', JStr ''B''), (''fill_rate'', JStr ''bad'')]])]])]"

definition run_example :: run_input where
  "run_example =
     \<lparr>env_urls = [Some ''https://example.org/feed.json'', None, None],
      now = (2024, 3, 1),
      fetch = (\<lambda>k url. Response \<lparr>status = 200, set_cookie = None, body = Inr feed_example\<rparr>),
      clock = (\<lambda>k. 1709251200000),
      archived_at = ''2024-03-01T00:00:00.000Z''\<rparr>"

definition world0 :: world where
  "world0 = \<lparr>nodes = Map.empty, denied = (\<lambda>p. False), cut = (\<lambda>p. None), ops = []\<rparr>"

text \<open>The same directory when the system refuses the write of the CSV artifact.\<close>

definition world_csv_refused :: world where
  "world_csv_refused =
     \<lparr>nodes = Map.empty, denied = (\<lambda>p. p = [''logs'', ''2024'', ''03'', ''2024-03-01.csv'']),
      cut = (\<lambda>p. None), ops = []\<rparr>"

text \<open>The same directory when the write of the JSON artifact stops after 100 bytes.\<close>

definition world_json_cut :: world where
  "world_json_cut =
     \<lparr>nodes = Map.empty, denied = (\<lambda>p. p = [''logs'', ''2024'', ''03'', ''2024-03-01.json'']),
      cut = (\<lambda>p. Some 100), ops = []\<rparr>"

text \<open>The run of the example when the network cannot reach the source location.\<close>

definition run_offline :: run_input where
  "run_offline = run_example\<lparr>fetch := (\<lambda>k url. Transport_error ''fetch failed'')\<rparr>"

text \<open>The same run a day later, when the feed has no row for the day.\<close>

definition run_next_day :: run_input where
  "run_next_day = run_example\<lparr>now := (2024, 3, 2)\<rparr>"

text \<open>The feed of the example with a day-record before it that has well-formed rows and no date.\<close>

definition feed_undated :: jsval where
  "feed_undated =
     JObj [(''result'', JArr [JObj [(''rows'', JArr [JObj [(''du_name'', JStr ''C''),
                                                          (''fill_rate'', JNum (Fin 1))]])],
       JObj [(''date'', JStr ''2024-03-01''),
       (''rows'', JArr [JObj [(''du_name'', JStr ''A''), (''fill_rate'', JNum (Fin (1 / 2)))],
                        JObj [(''du_name'', JStr ''B''), (''fill_rate'', JStr ''bad'')]])]])]"

text \<open>A feed whose names first appear in the order Zeta, Alpha, Zeta, Beta over two days.\<close>

definition feed_order :: jsval where
  "feed_order =
     JObj [(''result'', JArr
       [JObj [(''date'', JStr ''2024-03-01''),
              (''rows'', JArr [JObj [(''du_name'', JStr ''Zeta''), (''fill_rate'', JNum (Fin (1 / 2)))],
                               JObj [(''du_name'', JStr '' Alpha ''), (''fill_rate'', JNum (Fin (1 / 5)))]])],
        JObj [(''date'', JStr ''2024-03-02''),
              (''rows'', JArr [JObj [(''du_name'', JStr ''Zeta''), (''fill_rate'', JNum (Fin 1))],
                               JObj [(''du_name'', JStr ''Beta''), (''fill_rate'', JNum (Fin 0))]])]])]"

text \<open>A feed with one value that is infinite (the JSON numeral \<^verbatim>\<open>1e999\<close>) and one that is
  \<^verbatim>\<open>null\<close>.\<close>

definition feed_infinite :: jsval where
  "feed_infinite =
     JObj [(''result'', JArr [JObj [(''date'', JStr ''2024-03-01''),
       (''rows'', JArr [JObj [(''du_name'', JStr ''A''), (''fill_rate'', JNum PInf)],
                        JObj [(''du_name'', JStr ''B''), (''fill_rate'', JNull)]])]])]"

text \<open>
  A vendor that answers every API request with status 401 and a JSON body, and every
  login with a fresh session cookie; and a session that holds an expired cookie.
\<close>

definition vendor_401 :: vendor where
  "vendor_401 k req =
     (case req of
        Login \<Rightarrow>
          Response \<lparr>status = 200, set_cookie = Some [''lang=is'', ''Session=s2; Path=/; HttpOnly''],
                    body = Inr JNull\<rparr>
      | Api p opts c \<Rightarrow>
          Response \<lparr>status = 401, set_cookie = None,
                    body = Inr (JObj [(''error'', JStr ''unauthorized'')])\<rparr>)"

definition session_expired :: session where
  "session_expired = \<lparr>sessionCookie = Some ''session=s1'', calls = []\<rparr>"

text \<open>
  A vendor whose report for a screen holds two items with the pressures \<^verbatim>\<open>1e999\<close> and
  \<^verbatim>\<open>-1e999\<close>, which \<^verbatim>\<open>JSON.parse\<close> reads as the two infinities.
\<close>

definition vendor_infinite :: vendor where
  "vendor_infinite k req =
     Response \<lparr>status = 200, set_cookie = Some [''session=s1''],
               body = Inr (JObj [(''proposal_items'',
                        JArr [JObj [(''fill_pressure'', JNum PInf)],
                              JObj [(''fill_pressure'', JNum NInf)]])])\<rparr>"

text \<open>A feed whose second screen is named by the numeral 7, and the run that archives it.\<close>

definition feed_numeric_name :: jsval where
  "feed_numeric_name =
     JObj [(''result'', JArr [JObj [(''date'', JStr ''2024-03-01''),
       (''rows'', JArr [JObj [(''du_name'', JStr ''Zeta''), (''fill_rate'', JNum (Fin (1 / 2)))],
                        JObj [(''du_name'', JStr ''7''), (''fill_rate'', JNum (Fin (1 / 5)))]])]])]"

definition run_numeric_name :: run_input where
  "run_numeric_name =
     run_example\<lparr>fetch := (\<lambda>k url. Response \<lparr>status = 200, set_cookie = None,
                                               body = Inr feed_numeric_name\<rparr>)\<rparr>"

text \<open>
  The feed of the example with a day-record before it whose date is the object
  \<^verbatim>\<open>{"toString": 1}\<close>, and the feed of the example with a third row whose value is that
  object.
\<close>

definition feed_date_object :: jsval where
  "feed_date_object =
     JObj [(''result'', JArr [JObj [(''date'', JObj [(''toString'', JNum (Fin 1))]),
                                    (''rows'', JArr [JObj [(''du_name'', JStr ''C''),
                                                          (''fill_rate'', JNum (Fin 1))]])],
       JObj [(''date'', JStr ''2024-03-01''),
       (''rows'', JArr [JObj [(''du_name'', JStr ''A''), (''fill_rate'', JNum (Fin (1 / 2)))],
                        JObj [(''du_name'', JStr ''B''), (''fill_rate'', JStr ''bad'')]])]])]"

definition feed_value_object :: jsval where
  "feed_value_object =
     JObj [(''result'', JArr [JObj [(''date'', JStr ''2024-03-01''),
       (''rows'', JArr [JObj [(''du_name'', JStr ''A''), (''fill_rate'', JNum (Fin (1 / 2)))],
                        JObj [(''du_name'', JStr ''B''), (''fill_rate'', JStr ''bad'')],
                        JObj [(''du_name'', JStr ''C''),
                              (''fill_rate'', JObj [(''toString'', JNum (Fin 1))])]])]])]"

section \<open>Theorems\<close>

text \<open>Unfolding rules for evaluating the programs on concrete inputs.\<close>

lemmas eval_js = trim_def ws1_def ws2_def ws3_def is_array_index_def is_digit_def dec_value_def
  padStart_def dec.simps iso_year_def sample_builtins_def sample_DateUTC_def
  sample_NumberToString_def sample_StringToNumber_def opt_get_def get_def nullish_def
  iterate_def rows_of_def screen_name_def ToPrimitive_def ToNumber_def new_Date_def
  normalize_def nstate0_def heap0_def Let_def inherited_def inherited_names_def

lemmas eval_archive = main_def run_def existsSync_def outJson_def outCsv_def outDir_def
  dateISO_def yyyy_def mm_def dd_def dec_int_def urls_def getJSON_def attempt_def
  ok_def mkdirSync_def writeFileSync_def is_dir_def snapshotForDate_def lookup_number_def
  obj_set_def toCSVRows_def sort_cmp_def csv_escape_def payload_def

subsection \<open>Source Client\<close>

lemma getJSON_loop_all_fail:
  "(\<forall>(j, u) \<in> set (enumerate k us). attempt (F j (u @ ''?_='' @ dec (C j))) = Inl (r j)) \<Longrightarrow>
   getJSON_loop F C k errs us =
     (Inl (Error (''All sources failed: ''
        @ join '' | '' (errs @ map (\<lambda>(j, u). u @ '': '' @ r j) (enumerate k us)))),
      map (\<lambda>(j, u). u @ ''?_='' @ dec (C j)) (enumerate k us))"
  by (induction us arbitrary: k errs) (auto simp add: Let_def)

lemma getJSON_loop_first_success:
  "(\<forall>(j, u) \<in> set (enumerate k pre). \<exists>m. attempt (F j (u @ ''?_='' @ dec (C j))) = Inl m) \<Longrightarrow>
   attempt (F (k + length pre) (u @ ''?_='' @ dec (C (k + length pre)))) = Inr v \<Longrightarrow>
   getJSON_loop F C k errs (pre @ u # post) =
     (Inr v, map (\<lambda>(j, u). u @ ''?_='' @ dec (C j)) (enumerate k (pre @ [u])))"
  by (induction pre arbitrary: k errs) (auto simp add: Let_def enumerate_append_eq)

text \<open>
  C8. The candidates are tried in order: request \<open>j\<close> asks for candidate \<open>j\<close>, at the
  address \<^verbatim>\<open>candidate?_=time\<close>. If every attempt fails, attempt \<open>j\<close> with reason \<open>r j\<close>, every
  candidate has been requested once, in order, and the result is the one error
  \<^verbatim>\<open>All sources failed: \<close> followed by \<^verbatim>\<open>candidate: reason\<close> for every candidate in attempt
  order, joined by \<^verbatim>\<open> | \<close>. If the attempts on the candidates \<open>pre\<close> fail and the next
  candidate \<open>u\<close> gives a parsed body \<open>v\<close>, the result is \<open>v\<close>, and the requests made are those
  for \<open>pre\<close> and \<open>u\<close>: no candidate after \<open>u\<close> is asked. An attempt fails with the
  transport's message when the transport fails, and with \<^verbatim>\<open>HTTP status\<close> when the status
  is not in 200 to 299; with such a status its result is that of parsing the body.
\<close>

theorem getJSON_fallback:
  "((\<forall>(j, u) \<in> set (enumerate 0 us). attempt (F j (u @ ''?_='' @ dec (C j))) = Inl (r j)) \<longrightarrow>
      getJSON F C us =
        Inl (Error (''All sources failed: ''
          @ join '' | '' (map (\<lambda>(j, u). u @ '': '' @ r j) (enumerate 0 us))))
      \<and> requests F C us = map (\<lambda>(j, u). u @ ''?_='' @ dec (C j)) (enumerate 0 us))
   \<and> ((\<forall>(j, u) \<in> set (enumerate 0 pre). \<exists>m. attempt (F j (u @ ''?_='' @ dec (C j))) = Inl m)
        \<and> attempt (F (length pre) (u @ ''?_='' @ dec (C (length pre)))) = Inr v \<longrightarrow>
      getJSON F C (pre @ u # post) = Inr v
      \<and> requests F C (pre @ u # post)
          = map (\<lambda>(j, u). u @ ''?_='' @ dec (C j)) (enumerate 0 (pre @ [u])))
   \<and> attempt (Transport_error m) = Inl m
   \<and> (\<not> (200 \<le> status res \<and> status res \<le> 299) \<longrightarrow>
        attempt (Response res) = Inl (''HTTP '' @ dec (status res)))
   \<and> (200 \<le> status res \<and> status res \<le> 299 \<longrightarrow> attempt (Response res) = body res)"
proof -
  have a: "(\<forall>(j, u) \<in> set (enumerate 0 us). attempt (F j (u @ ''?_='' @ dec (C j))) = Inl (r j)) \<longrightarrow>
      getJSON F C us =
        Inl (Error (''All sources failed: ''
          @ join '' | '' (map (\<lambda>(j, u). u @ '': '' @ r j) (enumerate 0 us))))
      \<and> requests F C us = map (\<lambda>(j, u). u @ ''?_='' @ dec (C j)) (enumerate 0 us)"
    using getJSON_loop_all_fail [of 0 us F C r "[]"] by (simp add: getJSON_def requests_def)
  have b: "(\<forall>(j, u) \<in> set (enumerate 0 pre). \<exists>m. attempt (F j (u @ ''?_='' @ dec (C j))) = Inl m)
        \<and> attempt (F (length pre) (u @ ''?_='' @ dec (C (length pre)))) = Inr v \<longrightarrow>
      getJSON F C (pre @ u # post) = Inr v
      \<and> requests F C (pre @ u # post)
          = map (\<lambda>(j, u). u @ ''?_='' @ dec (C j)) (enumerate 0 (pre @ [u]))"
    using getJSON_loop_first_success [of 0 pre F C u v "[]" post]
    by (simp add: getJSON_def requests_def)
  have c: "attempt (Transport_error m) = Inl m
   \<and> (\<not> (200 \<le> status res \<and> status res \<le> 299) \<longrightarrow>
        attempt (Response res) = Inl (''HTTP '' @ dec (status res)))
   \<and> (200 \<le> status res \<and> status res \<le> 299 \<longrightarrow> attempt (Response res) = body res)"
    by (simp add: attempt_def ok_def)
  from a b c show ?thesis by blast
qed

lemma clock_example_dec:
  "dec (clock_example 0) = ''1709251200000'' \<and> dec (clock_example 1) = ''1709251200001''"
  by (simp add: clock_example_def dec.simps)

theorem getJSON_fallback_witness:
  "getJSON fetch_all_fail clock_example [''X'', ''Y'']
     = Inl (Error ''All sources failed: X: HTTP 500 | Y: fetch failed'')
   \<and> requests fetch_all_fail clock_example [''X'', ''Y'']
     = [''X?_=1709251200000'', ''Y?_=1709251200001'']
   \<and> getJSON fetch_500_then_ok clock_example [''X'', ''Y'', ''Z'']
     = Inr (JObj [(''result'', JArr [])])
   \<and> requests fetch_500_then_ok clock_example [''X'', ''Y'', ''Z'']
     = [''X?_=1709251200000'', ''Y?_=1709251200001'']
   \<and> attempt (Transport_error ''fetch failed'') = Inl ''fetch failed''
   \<and> attempt (Response \<lparr>status = 500, set_cookie = None, body = Inr JNull\<rparr>) = Inl ''HTTP 500''
   \<and> attempt (Response \<lparr>status = 200, set_cookie = None, body = Inr JNull\<rparr>) = Inr JNull"
proof -
  let ?r = "\<lambda>j::nat. if j = 0 then ''HTTP 500'' else ''fetch failed''"
  have h1: "\<forall>(j, u) \<in> set (enumerate 0 [''X'', ''Y'']).
      attempt (fetch_all_fail j (u @ ''?_='' @ dec (clock_example j))) = Inl (?r j)"
    using clock_example_dec by (simp add: fetch_all_fail_def attempt_def ok_def dec.simps)
  have h2: "(\<forall>(j, u) \<in> set (enumerate 0 [''X'']).
        \<exists>m. attempt (fetch_500_then_ok j (u @ ''?_='' @ dec (clock_example j))) = Inl m)
     \<and> attempt (fetch_500_then_ok (length [''X'']) (''Y'' @ ''?_='' @ dec (clock_example (length [''X'']))))
         = Inr (JObj [(''result'', JArr [])])"
    using clock_example_dec by (simp add: fetch_500_then_ok_def attempt_def ok_def)
  have h3: "\<not> (200 \<le> status \<lparr>status = 500, set_cookie = None, body = Inr JNull\<rparr>
      \<and> status \<lparr>status = 500, set_cookie = None, body = Inr JNull\<rparr> \<le> 299)"
    by simp
  note t = getJSON_fallback [where us = "[''X'', ''Y'']" and F = fetch_all_fail
      and C = clock_example and r = ?r and pre = "[]" and u = "''X''" and m = "''fetch failed''"
      and res = "\<lparr>status = 500, set_cookie = None, body = Inr JNull\<rparr>"]
  note t' = getJSON_fallback [where us = "[]" and F = fetch_500_then_ok and C = clock_example
      and pre = "[''X'']" and u = "''Y''" and v = "JObj [(''result'', JArr [])]"
      and post = "[''Z'']"
      and res = "\<lparr>status = 200, set_cookie = None, body = Inr JNull\<rparr>"]
  show ?thesis using t t' h1 h2 h3 clock_example_dec by (simp add: dec.simps)
qed

subsection \<open>File system\<close>

lemma mkdirs_frame:
  "mkdirs qs w = (r, w1) \<Longrightarrow>
     denied w1 = denied w \<and> cut w1 = cut w
     \<and> (\<exists>ds. ops w1 = ops w @ map Mkdir ds)
     \<and> (\<forall>p. p \<notin> set qs \<longrightarrow> nodes w1 p = nodes w p)
     \<and> (\<forall>p c. nodes w1 p = Some (File c) \<longleftrightarrow> nodes w p = Some (File c))
     \<and> (r = Inr () \<longrightarrow> (\<forall>q \<in> set qs. nodes w1 q = Some Dir))"
proof (induction qs arbitrary: w)
  case Nil
  then show ?case by auto
next
  case (Cons q qs)
  show ?case
  proof (cases "nodes w q")
    case None
    show ?thesis
    proof (cases "denied w q")
      case True
      with None Cons.prems show ?thesis by auto
    next
      case False
      let ?w = "w\<lparr>nodes := (nodes w)(q \<mapsto> Dir), ops := ops w @ [Mkdir q]\<rparr>"
      from None False Cons.prems have m: "mkdirs qs ?w = (r, w1)" by simp
      note ih = Cons.IH [OF m]
      from ih have d: "denied w1 = denied w \<and> cut w1 = cut w" by simp
      from ih obtain ds where "ops w1 = ops ?w @ map Mkdir ds" by blast
      then have o: "ops w1 = ops w @ map Mkdir (q # ds)" by simp
      from ih have f: "\<forall>p. p \<notin> set qs \<longrightarrow> nodes w1 p = nodes ?w p" by blast
      from ih have g: "\<forall>p c. nodes w1 p = Some (File c) \<longleftrightarrow> nodes ?w p = Some (File c)" by blast
      from ih have s: "r = Inr () \<longrightarrow> (\<forall>q \<in> set qs. nodes w1 q = Some Dir)" by blast
      have f': "\<forall>p. p \<notin> set (q # qs) \<longrightarrow> nodes w1 p = nodes w p" using f by simp
      have g': "\<forall>p c. nodes w1 p = Some (File c) \<longleftrightarrow> nodes w p = Some (File c)"
        using g None by auto
      have s': "r = Inr () \<longrightarrow> (\<forall>q' \<in> set (q # qs). nodes w1 q' = Some Dir)"
        using s f by (cases "q \<in> set qs") auto
      show ?thesis using d o f' g' s' by blast
    qed
  next
    case (Some n)
    show ?thesis
    proof (cases n)
      case (File c)
      with Some Cons.prems show ?thesis by auto
    next
      case Dir
      with Some Cons.prems have m: "mkdirs qs w = (r, w1)" by simp
      note ih = Cons.IH [OF m]
      have s': "r = Inr () \<longrightarrow> (\<forall>q' \<in> set (q # qs). nodes w1 q' = Some Dir)"
        using ih Some Dir by (cases "q \<in> set qs") auto
      show ?thesis using ih s' by auto
    qed
  qed
qed

lemma outJson_neq_outCsv: "outJson I \<noteq> outCsv I"
  by (simp add: outJson_def outCsv_def)

lemma outDir_in_prefixes: "outDir I \<in> set (map (\<lambda>n. take n (outDir I)) [1..<Suc (length (outDir I))])"
  by (simp add: outDir_def image_iff)

lemma outJson_notin_prefixes: "outJson I \<notin> set (map (\<lambda>n. take n (outDir I)) [1..<Suc (length (outDir I))])"
  by (auto simp add: outDir_def outJson_def dest!: arg_cong [where f = length])

lemma outCsv_notin_prefixes: "outCsv I \<notin> set (map (\<lambda>n. take n (outDir I)) [1..<Suc (length (outDir I))])"
  by (auto simp add: outDir_def outCsv_def dest!: arg_cong [where f = length])

lemma mkdirSync_frame:
  "mkdirSync w (outDir I) = (r, w1) \<Longrightarrow>
     denied w1 = denied w \<and> cut w1 = cut w
     \<and> (\<exists>ds. ops w1 = ops w @ map Mkdir ds)
     \<and> nodes w1 (outJson I) = nodes w (outJson I)
     \<and> nodes w1 (outCsv I) = nodes w (outCsv I)
     \<and> (\<forall>p c. nodes w1 p = Some (File c) \<longleftrightarrow> nodes w p = Some (File c))
     \<and> (r = Inr () \<longrightarrow> nodes w1 (outDir I) = Some Dir)"
  unfolding mkdirSync_def
  using mkdirs_frame [of "map (\<lambda>n. take n (outDir I)) [1..<Suc (length (outDir I))]" w r w1]
    outDir_in_prefixes [of I] outJson_notin_prefixes [of I] outCsv_notin_prefixes [of I]
  by blast

lemma writeFileSync_ok:
  "writeFileSync w p c = (Inr (), w') \<Longrightarrow>
     w' = w\<lparr>nodes := (nodes w)(p \<mapsto> File c), ops := ops w @ [WriteFile p c]\<rparr>"
  by (auto simp add: writeFileSync_def split: if_splits option.splits)

text \<open>A write that fails has changed nothing, or it has left a part of the content.\<close>

lemma writeFileSync_fails:
  "writeFileSync w p c = (Inl e, w') \<Longrightarrow>
     w' = w
     \<or> (\<exists>k. w' = w\<lparr>nodes := (nodes w)(p \<mapsto> File (Partial c k)),
                     ops := ops w @ [WriteFile p (Partial c k)]\<rparr>)"
  by (auto simp add: writeFileSync_def split: if_splits option.splits)

lemma butlast_outJson: "butlast (outJson I) = outDir I"
  by (simp add: outJson_def)

lemma butlast_outCsv: "butlast (outCsv I) = outDir I"
  by (simp add: outCsv_def)

lemma outDir_neq_outJson: "outDir I \<noteq> outJson I"
  by (simp add: outJson_def)

lemma outDir_neq_outCsv: "outDir I \<noteq> outCsv I"
  by (simp add: outCsv_def)

subsection \<open>Archive Writer\<close>

lemma main_noop: "existsSync w (outJson I) \<Longrightarrow> main B I w = (Inr (), w)"
  by (simp add: main_def)

lemma outJson_now: "now I2 = now I \<Longrightarrow> outJson I2 = outJson I"
  by (simp add: outJson_def outDir_def dateISO_def yyyy_def mm_def dd_def)

text \<open>The stages of a run that has fetched and normalized the feed.\<close>

lemma main_stages:
  assumes "\<not> existsSync w (outJson I)" "getJSON (fetch I) (clock I) (urls I) = Inr raw"
    "normalize B heap0 raw = Inr (n, h)"
  shows "main B I w =
     (case mkdirSync w (outDir I) of
        (Inl e, w1) \<Rightarrow> (Inl e, w1)
      | (Inr u, w1) \<Rightarrow>
          (case writeFileSync w1 (outJson I) (json_content I n h) of
             (Inl e, w2) \<Rightarrow> (Inl e, w2)
           | (Inr u', w2) \<Rightarrow>
               (case writeFileSync w2 (outCsv I) (csv_content B I n h) of
                  (Inl e, w3) \<Rightarrow> (Inl e, w3)
                | (Inr u'', w3) \<Rightarrow> (Inr (), w3))))"
  unfolding json_content_def csv_content_def using assms by (simp add: main_def Let_def)

lemma main_success_exists:
  assumes "main B I w = (Inr (), w1)"
  shows "existsSync w1 (outJson I)"
proof (cases "existsSync w (outJson I)")
  case True
  with assms show ?thesis by (simp add: main_def)
next
  case False
  with assms obtain j c wa wb where
    a: "writeFileSync wa (outJson I) j = (Inr (), wb)" and
    b: "writeFileSync wb (outCsv I) c = (Inr (), w1)"
    by (auto simp add: main_def Let_def split: sum.splits prod.splits)
  have "nodes wb (outJson I) = Some (File j)"
    by (subst writeFileSync_ok [OF a]) simp
  moreover have "nodes w1 (outJson I) = nodes wb (outJson I)"
    using outJson_neq_outCsv [of I] by (subst writeFileSync_ok [OF b]) simp
  ultimately show ?thesis by (simp add: existsSync_def)
qed

text \<open>
  C2. If the JSON artifact of the day exists, a run returns normally and leaves the
  world as it was: no file or directory changes and nothing is added to the trace of
  file-system operations. Hence after a run that returned normally, every further run
  for the same date (whatever the network, the clock or the built-ins then are) returns
  normally and changes nothing.
\<close>

theorem main_idempotent:
  "(existsSync w (outJson I) \<longrightarrow> main B I w = (Inr (), w))
   \<and> (main B I w = (Inr (), w1) \<and> now I2 = now I \<longrightarrow> main B2 I2 w1 = (Inr (), w1))"
proof (intro conjI impI)
  assume "existsSync w (outJson I)"
  then show "main B I w = (Inr (), w)" by (rule main_noop)
next
  assume a: "main B I w = (Inr (), w1) \<and> now I2 = now I"
  then have "existsSync w1 (outJson I)" using main_success_exists by blast
  with a outJson_now [of I2 I] have "existsSync w1 (outJson I2)" by simp
  then show "main B2 I2 w1 = (Inr (), w1)" by (rule main_noop)
qed

lemma normalize_feed_example:
  "normalize sample_builtins heap0 feed_example =
     Inr (\<lparr>dates = [''2024-03-01''], screens = [''A'', ''B''],
           map' = [''A'' \<mapsto> [''2024-03-01'' \<mapsto> Fin (1 / 2)]],
           source_generated_at = JNull\<rparr>, heap0)"
  by (simp add: eval_js feed_example_def)

lemma main_example_ok: "fst (main sample_builtins run_example world0) = Inr ()"
  by (simp add: eval_js eval_archive run_example_def world0_def feed_example_def)

lemma main_example_exists:
  "existsSync (snd (main sample_builtins run_example world0)) (outJson run_example)"
  by (simp add: eval_js eval_archive run_example_def world0_def feed_example_def)

theorem main_idempotent_witness:
  "fst (main sample_builtins run_example world0) = Inr ()
   \<and> existsSync (snd (main sample_builtins run_example world0)) (outJson run_example)
   \<and> main sample_builtins run_example (snd (main sample_builtins run_example world0))
       = (Inr (), snd (main sample_builtins run_example world0))"
proof -
  let ?w1 = "snd (main sample_builtins run_example world0)"
  have m: "main sample_builtins run_example world0 = (Inr (), ?w1)"
    using main_example_ok by (simp add: prod_eq_iff)
  from main_idempotent [where B = sample_builtins and I = run_example and w = world0
      and ?w1.0 = ?w1 and ?I2.0 = run_example and ?B2.0 = sample_builtins] m
  have a: "main sample_builtins run_example ?w1 = (Inr (), ?w1)" by blast
  from main_idempotent [where B = sample_builtins and I = run_example and w = ?w1]
    main_example_exists
  have b: "main sample_builtins run_example ?w1 = (Inr (), ?w1)" by blast
  show ?thesis using main_example_ok main_example_exists a b by blast
qed

lemma written_append:
  "ops w' = ops w @ xs \<Longrightarrow>
   written w w' = filter (\<lambda>op. case op of WriteFile p c \<Rightarrow> True | Mkdir p \<Rightarrow> False) xs"
  by (simp add: written_def)

lemma written_mkdirs: "ops w' = ops w @ map Mkdir ds \<Longrightarrow> written w w' = []"
  by (simp add: written_append filter_empty_conv)

lemma written_mkdirs_json:
  "ops w' = ops w @ map Mkdir ds @ [WriteFile p j] \<Longrightarrow> written w w' = [WriteFile p j]"
  by (simp add: written_append filter_empty_conv)

lemma written_mkdirs_json_csv:
  "ops w' = ops w @ map Mkdir ds @ [WriteFile p j, WriteFile q c] \<Longrightarrow>
   written w w' = [WriteFile p j, WriteFile q c]"
  by (simp add: written_append filter_empty_conv)

lemma run_main: "main B I w = (res, w') \<Longrightarrow> run B I w = ((case res of Inl e \<Rightarrow> 1 | Inr u \<Rightarrow> 0), w')"
  by (simp add: run_def split: sum.splits)

text \<open>A run that finds a file or directory at the path of the JSON artifact changes nothing.\<close>

lemma later_runs:
  assumes "nodes w' (outJson I) \<noteq> None"
  shows "\<forall>B2 I2. now I2 = now I \<longrightarrow> run B2 I2 w' = (0, w')"
proof (intro allI impI)
  fix B2 :: builtins and I2 :: run_input
  assume "now I2 = now I"
  with assms outJson_now [of I2 I] have "existsSync w' (outJson I2)"
    by (simp add: existsSync_def)
  then have "main B2 I2 w' = (Inr (), w')" by (rule main_noop)
  then show "run B2 I2 w' = (0, w')" by (simp add: run_def)
qed

lemma main_mkdir_fails:
  assumes "\<not> existsSync w (outJson I)" "getJSON (fetch I) (clock I) (urls I) = Inr raw"
    "normalize B heap0 raw = Inr (n, h)" "mkdirSync w (outDir I) = (Inl e, w1)"
  shows "run B I w = (1, w1) \<and> written w w1 = []
    \<and> (\<forall>p c. nodes w1 p = Some (File c) \<longleftrightarrow> nodes w p = Some (File c))"
proof -
  have "main B I w = (Inl e, w1)"
    using assms(4) by (simp add: main_stages [OF assms(1-3)])
  then have r: "run B I w = (1, w1)" by (simp add: run_def)
  note f = mkdirSync_frame [OF assms(4)]
  from f obtain ds where "ops w1 = ops w @ map Mkdir ds" by blast
  then have "written w w1 = []" by (rule written_mkdirs)
  with r f show ?thesis by blast
qed

lemma main_json_fails:
  assumes "\<not> existsSync w (outJson I)" "getJSON (fetch I) (clock I) (urls I) = Inr raw"
    "normalize B heap0 raw = Inr (n, h)" "mkdirSync w (outDir I) = (Inr (), w1)"
    "writeFileSync w1 (outJson I) (json_content I n h) = (Inl e, w2)"
  shows "run B I w = (1, w2)
    \<and> ((written w w2 = [] \<and> (\<forall>p c. nodes w2 p = Some (File c) \<longleftrightarrow> nodes w p = Some (File c)))
       \<or> (\<exists>k. written w w2 = [WriteFile (outJson I) (Partial (json_content I n h) k)]
             \<and> nodes w2 (outJson I) = Some (File (Partial (json_content I n h) k))
             \<and> nodes w2 (outCsv I) = nodes w (outCsv I)
             \<and> (\<forall>B2 I2. now I2 = now I \<longrightarrow> run B2 I2 w2 = (0, w2))))"
proof -
  let ?j = "json_content I n h"
  have "main B I w = (Inl e, w2)"
    using assms(4,5) by (simp add: main_stages [OF assms(1-3)])
  then have r: "run B I w = (1, w2)" by (simp add: run_def)
  note f = mkdirSync_frame [OF assms(4)]
  from f obtain ds where ds: "ops w1 = ops w @ map Mkdir ds" by blast
  from writeFileSync_fails [OF assms(5)]
  consider (same) "w2 = w1"
    | (part) k where "w2 = w1\<lparr>nodes := (nodes w1)(outJson I \<mapsto> File (Partial ?j k)),
          ops := ops w1 @ [WriteFile (outJson I) (Partial ?j k)]\<rparr>"
    by blast
  then show ?thesis
  proof cases
    case same
    from ds have "written w w1 = []" by (rule written_mkdirs)
    with same r f show ?thesis by blast
  next
    case part
    have o: "ops w2 = ops w @ map Mkdir ds @ [WriteFile (outJson I) (Partial ?j k)]"
      using ds by (simp add: part)
    have n1: "nodes w2 (outJson I) = Some (File (Partial ?j k))" by (simp add: part)
    have "nodes w2 (outCsv I) = nodes w1 (outCsv I)"
      using outJson_neq_outCsv [of I] by (simp add: part)
    with f have n2: "nodes w2 (outCsv I) = nodes w (outCsv I)" by simp
    from n1 have "nodes w2 (outJson I) \<noteq> None" by simp
    then have l: "\<forall>B2 I2. now I2 = now I \<longrightarrow> run B2 I2 w2 = (0, w2)" by (rule later_runs)
    from written_mkdirs_json [OF o] n1 n2 l r show ?thesis by blast
  qed
qed

lemma main_csv_fails:
  assumes "\<not> existsSync w (outJson I)" "getJSON (fetch I) (clock I) (urls I) = Inr raw"
    "normalize B heap0 raw = Inr (n, h)" "mkdirSync w (outDir I) = (Inr (), w1)"
    "writeFileSync w1 (outJson I) (json_content I n h) = (Inr (), w2)"
    "writeFileSync w2 (outCsv I) (csv_content B I n h) = (Inl e, w3)"
  shows "run B I w = (1, w3)
    \<and> nodes w3 (outJson I) = Some (File (json_content I n h))
    \<and> ((written w w3 = [WriteFile (outJson I) (json_content I n h)]
          \<and> nodes w3 (outCsv I) = nodes w (outCsv I))
       \<or> (\<exists>k. written w w3 = [WriteFile (outJson I) (json_content I n h),
                               WriteFile (outCsv I) (Partial (csv_content B I n h) k)]
             \<and> nodes w3 (outCsv I) = Some (File (Partial (csv_content B I n h) k))))
    \<and> (\<forall>B2 I2. now I2 = now I \<longrightarrow> run B2 I2 w3 = (0, w3))"
proof -
  let ?j = "json_content I n h"
  let ?c = "csv_content B I n h"
  have "main B I w = (Inl e, w3)"
    using assms(4,5,6) by (simp add: main_stages [OF assms(1-3)])
  then have r: "run B I w = (1, w3)" by (simp add: run_def)
  note f = mkdirSync_frame [OF assms(4)]
  from f obtain ds where ds: "ops w1 = ops w @ map Mkdir ds" by blast
  note w2 = writeFileSync_ok [OF assms(5)]
  have o2: "ops w2 = ops w @ map Mkdir ds @ [WriteFile (outJson I) ?j]"
    using ds by (subst w2) simp
  have j2: "nodes w2 (outJson I) = Some (File ?j)" by (subst w2) simp
  have "nodes w2 (outCsv I) = nodes w1 (outCsv I)"
    using outJson_neq_outCsv [of I] by (subst w2) simp
  with f have c2: "nodes w2 (outCsv I) = nodes w (outCsv I)" by simp
  from writeFileSync_fails [OF assms(6)]
  consider (same) "w3 = w2"
    | (part) k where "w3 = w2\<lparr>nodes := (nodes w2)(outCsv I \<mapsto> File (Partial ?c k)),
          ops := ops w2 @ [WriteFile (outCsv I) (Partial ?c k)]\<rparr>"
    by blast
  then show ?thesis
  proof cases
    case same
    from j2 same have "nodes w3 (outJson I) \<noteq> None" by simp
    then have l: "\<forall>B2 I2. now I2 = now I \<longrightarrow> run B2 I2 w3 = (0, w3)" by (rule later_runs)
    from written_mkdirs_json [OF o2] j2 c2 same r l show ?thesis by blast
  next
    case part
    have o: "ops w3 = ops w @ map Mkdir ds
        @ [WriteFile (outJson I) ?j, WriteFile (outCsv I) (Partial ?c k)]"
      using o2 by (simp add: part)
    have j3: "nodes w3 (outJson I) = Some (File ?j)"
      using j2 outJson_neq_outCsv [of I] by (simp add: part)
    have c3: "nodes w3 (outCsv I) = Some (File (Partial ?c k))" by (simp add: part)
    from j3 have "nodes w3 (outJson I) \<noteq> None" by simp
    then have l: "\<forall>B2 I2. now I2 = now I \<longrightarrow> run B2 I2 w3 = (0, w3)" by (rule later_runs)
    from written_mkdirs_json_csv [OF o] j3 c3 r l show ?thesis by blast
  qed
qed

lemma main_all_succeed:
  assumes "\<not> existsSync w (outJson I)" "getJSON (fetch I) (clock I) (urls I) = Inr raw"
    "normalize B heap0 raw = Inr (n, h)" "mkdirSync w (outDir I) = (Inr (), w1)"
    "writeFileSync w1 (outJson I) (json_content I n h) = (Inr (), w2)"
    "writeFileSync w2 (outCsv I) (csv_content B I n h) = (Inr (), w3)"
  shows "run B I w = (0, w3)
    \<and> written w w3 = [WriteFile (outJson I) (json_content I n h),
                      WriteFile (outCsv I) (csv_content B I n h)]
    \<and> nodes w3 (outJson I) = Some (File (json_content I n h))
    \<and> nodes w3 (outCsv I) = Some (File (csv_content B I n h))"
proof -
  let ?j = "json_content I n h"
  let ?c = "csv_content B I n h"
  have "main B I w = (Inr (), w3)"
    using assms(4,5,6) by (simp add: main_stages [OF assms(1-3)])
  then have r: "run B I w = (0, w3)" by (simp add: run_def)
  note f = mkdirSync_frame [OF assms(4)]
  from f obtain ds where ds: "ops w1 = ops w @ map Mkdir ds" by blast
  note w2 = writeFileSync_ok [OF assms(5)]
  note w3 = writeFileSync_ok [OF assms(6)]
  have o2: "ops w2 = ops w @ map Mkdir ds @ [WriteFile (outJson I) ?j]"
    using ds by (subst w2) simp
  have j2: "nodes w2 (outJson I) = Some (File ?j)" by (subst w2) simp
  have o: "ops w3 = ops w @ map Mkdir ds @ [WriteFile (outJson I) ?j, WriteFile (outCsv I) ?c]"
    using o2 by (subst w3) simp
  have j3: "nodes w3 (outJson I) = Some (File ?j)"
    using j2 outJson_neq_outCsv [of I] by (subst w3) simp
  have c3: "nodes w3 (outCsv I) = Some (File ?c)" by (subst w3) simp
  from written_mkdirs_json_csv [OF o] j3 c3 r show ?thesis by blast
qed

text \<open>
  C3, as amended. A run that finds the JSON artifact exits with status 0 and changes
  nothing. Otherwise every failure makes the process exit with status 1:
  \<^item> when no source can be fetched, or the Normalizer throws, nothing has changed;
  \<^item> when the directory cannot be made, no file has been written and every file is as
    it was (directories made before the failure stay);
  \<^item> when the write of the JSON artifact fails, either no file has been written and
    every file is as it was, or the write has left a part of the JSON artifact at its
    path: then the CSV path is untouched and every later run for that date finds that
    part, takes it for the archive and exits with status 0 without writing;
  \<^item> when the write of the CSV artifact fails, the JSON artifact was written whole
    before, and the CSV path is as it was before the run or holds a part of the CSV
    artifact; every later run for that date exits with status 0 without writing, so the
    pair is not completed.

  When nothing fails the run exits with status 0 and has written the whole JSON
  artifact and then the whole CSV artifact.
\<close>

theorem main_failure_semantics:
  "(existsSync w (outJson I) \<longrightarrow> run B I w = (0, w))
   \<and> (\<not> existsSync w (outJson I) \<and> getJSON (fetch I) (clock I) (urls I) = Inl e
        \<longrightarrow> run B I w = (1, w))
   \<and> (\<not> existsSync w (outJson I) \<and> getJSON (fetch I) (clock I) (urls I) = Inr raw
        \<and> normalize B heap0 raw = Inl e
        \<longrightarrow> run B I w = (1, w))
   \<and> (\<not> existsSync w (outJson I) \<and> getJSON (fetch I) (clock I) (urls I) = Inr raw
        \<and> normalize B heap0 raw = Inr (n, h)
        \<and> mkdirSync w (outDir I) = (Inl e, w1)
        \<longrightarrow> run B I w = (1, w1) \<and> written w w1 = []
            \<and> (\<forall>p c. nodes w1 p = Some (File c) \<longleftrightarrow> nodes w p = Some (File c)))
   \<and> (\<not> existsSync w (outJson I) \<and> getJSON (fetch I) (clock I) (urls I) = Inr raw
        \<and> normalize B heap0 raw = Inr (n, h)
        \<and> mkdirSync w (outDir I) = (Inr (), w1)
        \<and> writeFileSync w1 (outJson I) (json_content I n h) = (Inl e, w2)
        \<longrightarrow> run B I w = (1, w2)
            \<and> ((written w w2 = []
                  \<and> (\<forall>p c. nodes w2 p = Some (File c) \<longleftrightarrow> nodes w p = Some (File c)))
               \<or> (\<exists>k. written w w2 = [WriteFile (outJson I) (Partial (json_content I n h) k)]
                     \<and> nodes w2 (outJson I) = Some (File (Partial (json_content I n h) k))
                     \<and> nodes w2 (outCsv I) = nodes w (outCsv I)
                     \<and> (\<forall>B2 I2. now I2 = now I \<longrightarrow> run B2 I2 w2 = (0, w2)))))
   \<and> (\<not> existsSync w (outJson I) \<and> getJSON (fetch I) (clock I) (urls I) = Inr raw
        \<and> normalize B heap0 raw = Inr (n, h)
        \<and> mkdirSync w (outDir I) = (Inr (), w1)
        \<and> writeFileSync w1 (outJson I) (json_content I n h) = (Inr (), w2)
        \<and> writeFileSync w2 (outCsv I) (csv_content B I n h) = (Inl e, w3)
        \<longrightarrow> run B I w = (1, w3)
            \<and> nodes w3 (outJson I) = Some (File (json_content I n h))
            \<and> ((written w w3 = [WriteFile (outJson I) (json_content I n h)]
                  \<and> nodes w3 (outCsv I) = nodes w (outCsv I))
               \<or> (\<exists>k. written w w3 = [WriteFile (outJson I) (json_content I n h),
                                       WriteFile (outCsv I) (Partial (csv_content B I n h) k)]
                     \<and> nodes w3 (outCsv I) = Some (File (Partial (csv_content B I n h) k))))
            \<and> (\<forall>B2 I2. now I2 = now I \<longrightarrow> run B2 I2 w3 = (0, w3)))
   \<and> (\<not> existsSync w (outJson I) \<and> getJSON (fetch I) (clock I) (urls I) = Inr raw
        \<and> normalize B heap0 raw = Inr (n, h)
        \<and> mkdirSync w (outDir I) = (Inr (), w1)
        \<and> writeFileSync w1 (outJson I) (json_content I n h) = (Inr (), w2)
        \<and> writeFileSync w2 (outCsv I) (csv_content B I n h) = (Inr (), w3)
        \<longrightarrow> run B I w = (0, w3)
            \<and> written w w3 = [WriteFile (outJson I) (json_content I n h),
                              WriteFile (outCsv I) (csv_content B I n h)]
            \<and> nodes w3 (outJson I) = Some (File (json_content I n h))
            \<and> nodes w3 (outCsv I) = Some (File (csv_content B I n h)))"
proof -
  have a: "existsSync w (outJson I) \<longrightarrow> run B I w = (0, w)"
    by (simp add: run_def main_noop)
  have b: "\<not> existsSync w (outJson I) \<and> getJSON (fetch I) (clock I) (urls I) = Inl e
        \<longrightarrow> run B I w = (1, w)"
    by (simp add: run_def main_def)
  have c: "\<not> existsSync w (outJson I) \<and> getJSON (fetch I) (clock I) (urls I) = Inr raw
        \<and> normalize B heap0 raw = Inl e
        \<longrightarrow> run B I w = (1, w)"
    by (simp add: run_def main_def)
  note d = main_mkdir_fails [of w I raw B n h e w1]
  note f = main_json_fails [of w I raw B n h w1 e w2]
  note g = main_csv_fails [of w I raw B n h w1 w2 e w3]
  note s = main_all_succeed [of w I raw B n h w1 w2 w3]
  show ?thesis
    apply (intro conjI)
    subgoal using a .
    subgoal using b .
    subgoal using c .
    subgoal using d by blast
    subgoal using f by blast
    subgoal using g by blast
    subgoal using s by blast
    done
qed

lemma getJSON_example:
  "getJSON (fetch run_example) (clock run_example) (urls run_example) = Inr feed_example"
  by (simp add: getJSON_def attempt_def ok_def urls_def run_example_def Let_def)

lemma getJSON_offline:
  "getJSON (fetch run_offline) (clock run_offline) (urls run_offline)
     = Inl (Error ''All sources failed: https://example.org/feed.json: fetch failed'')"
  by (simp add: getJSON_def attempt_def ok_def urls_def run_offline_def run_example_def Let_def)

lemma outJson_example: "outJson run_example = [''logs'', ''2024'', ''03'', ''2024-03-01.json'']"
  by (simp add: eval_js eval_archive run_example_def)

lemma outCsv_example: "outCsv run_example = [''logs'', ''2024'', ''03'', ''2024-03-01.csv'']"
  by (simp add: eval_js eval_archive run_example_def)

lemma outDir_example: "outDir run_example = [''logs'', ''2024'', ''03'']"
  by (simp add: eval_js eval_archive run_example_def)

lemma mkdirSync_example:
  "nodes w = Map.empty \<Longrightarrow> denied w [''logs''] = False \<Longrightarrow> denied w [''logs'', ''2024''] = False \<Longrightarrow>
   denied w [''logs'', ''2024'', ''03''] = False \<Longrightarrow>
   mkdirSync w [''logs'', ''2024'', ''03'']
     = (Inr (), w\<lparr>nodes := [[''logs''] \<mapsto> Dir, [''logs'', ''2024''] \<mapsto> Dir,
                             [''logs'', ''2024'', ''03''] \<mapsto> Dir],
                   ops := ops w @ [Mkdir [''logs''], Mkdir [''logs'', ''2024''],
                                   Mkdir [''logs'', ''2024'', ''03'']]\<rparr>)"
  by (simp add: mkdirSync_def upt_rec)

theorem main_failure_semantics_witness:
  "run sample_builtins run_offline world0 = (1, world0)
   \<and> fst (run sample_builtins run_example world_json_cut) = 1
   \<and> (case nodes (snd (run sample_builtins run_example world_json_cut))
              [''logs'', ''2024'', ''03'', ''2024-03-01.json''] of
         Some (File (Partial c k)) \<Rightarrow> k
       | _ \<Rightarrow> 0) = 100
   \<and> run sample_builtins run_example (snd (run sample_builtins run_example world_json_cut))
       = (0, snd (run sample_builtins run_example world_json_cut))
   \<and> fst (run sample_builtins run_example world_csv_refused) = 1
   \<and> nodes (snd (run sample_builtins run_example world_csv_refused))
        [''logs'', ''2024'', ''03'', ''2024-03-01.csv''] = None
   \<and> run sample_builtins run_example (snd (run sample_builtins run_example world_csv_refused))
       = (0, snd (run sample_builtins run_example world_csv_refused))"
proof -
  let ?B = sample_builtins
  let ?I = run_example
  let ?n = "\<lparr>dates = [''2024-03-01''], screens = [''A'', ''B''],
           map' = [''A'' \<mapsto> [''2024-03-01'' \<mapsto> Fin (1 / 2)]],
           source_generated_at = JNull\<rparr>"
  let ?j = "json_content ?I ?n heap0"
  let ?c = "csv_content ?B ?I ?n heap0"
  let ?dirs = "[[''logs''] \<mapsto> Dir, [''logs'', ''2024''] \<mapsto> Dir, [''logs'', ''2024'', ''03''] \<mapsto> Dir]"
  let ?mk = "[Mkdir [''logs''], Mkdir [''logs'', ''2024''], Mkdir [''logs'', ''2024'', ''03'']]"

  have off: "\<not> existsSync world0 (outJson run_offline)
      \<and> getJSON (fetch run_offline) (clock run_offline) (urls run_offline)
          = Inl (Error ''All sources failed: https://example.org/feed.json: fetch failed'')"
    using getJSON_offline by (simp add: existsSync_def world0_def)
  from main_failure_semantics [where B = ?B and I = run_offline and w = world0
      and e = "Error ''All sources failed: https://example.org/feed.json: fetch failed''",
      THEN conjunct2, THEN conjunct1, THEN mp, OF off]
  have r1: "run ?B run_offline world0 = (1, world0)" .

  let ?u = world_json_cut
  let ?u1 = "?u\<lparr>nodes := ?dirs, ops := ops ?u @ ?mk\<rparr>"
  let ?u2 = "?u1\<lparr>nodes := (nodes ?u1)(outJson ?I \<mapsto> File (Partial ?j 100)),
                 ops := ops ?u1 @ [WriteFile (outJson ?I) (Partial ?j 100)]\<rparr>"
  have cut: "\<not> existsSync ?u (outJson ?I)
      \<and> getJSON (fetch ?I) (clock ?I) (urls ?I) = Inr feed_example
      \<and> normalize ?B heap0 feed_example = Inr (?n, heap0)
      \<and> mkdirSync ?u (outDir ?I) = (Inr (), ?u1)
      \<and> writeFileSync ?u1 (outJson ?I) ?j = (Inl (SystemError ''ENOSPC''), ?u2)"
    using getJSON_example normalize_feed_example
      mkdirSync_example [of ?u]
    by (simp add: outJson_example outDir_example existsSync_def writeFileSync_def is_dir_def
        world_json_cut_def)
  note t2 = main_failure_semantics [where B = ?B and I = ?I and w = ?u and raw = feed_example
      and n = ?n and h = heap0 and ?w1.0 = ?u1 and ?w2.0 = ?u2 and e = "SystemError ''ENOSPC''",
      THEN conjunct2, THEN conjunct2, THEN conjunct2, THEN conjunct2, THEN conjunct1,
      THEN mp, OF cut]
  from t2 have r2: "run ?B ?I ?u = (1, ?u2)" by blast
  have "written ?u ?u2 \<noteq> []" by (simp add: written_def world_json_cut_def)
  with t2 have "\<forall>B2 I2. now I2 = now ?I \<longrightarrow> run B2 I2 ?u2 = (0, ?u2)" by blast
  then have l2: "run ?B ?I ?u2 = (0, ?u2)" by blast
  have n2: "(case nodes ?u2 [''logs'', ''2024'', ''03'', ''2024-03-01.json''] of
         Some (File (Partial c k)) \<Rightarrow> k | _ \<Rightarrow> 0) = 100"
    by (simp add: outJson_example)

  let ?v = world_csv_refused
  let ?v1 = "?v\<lparr>nodes := ?dirs, ops := ops ?v @ ?mk\<rparr>"
  let ?v2 = "?v1\<lparr>nodes := (nodes ?v1)(outJson ?I \<mapsto> File ?j),
                 ops := ops ?v1 @ [WriteFile (outJson ?I) ?j]\<rparr>"
  have ref: "\<not> existsSync ?v (outJson ?I)
      \<and> getJSON (fetch ?I) (clock ?I) (urls ?I) = Inr feed_example
      \<and> normalize ?B heap0 feed_example = Inr (?n, heap0)
      \<and> mkdirSync ?v (outDir ?I) = (Inr (), ?v1)
      \<and> writeFileSync ?v1 (outJson ?I) ?j = (Inr (), ?v2)
      \<and> writeFileSync ?v2 (outCsv ?I) ?c = (Inl (SystemError ''EACCES''), ?v2)"
    using getJSON_example normalize_feed_example
      mkdirSync_example [of ?v]
    by (simp add: outJson_example outCsv_example outDir_example existsSync_def writeFileSync_def
        is_dir_def world_csv_refused_def)
  note t3 = main_failure_semantics [where B = ?B and I = ?I and w = ?v and raw = feed_example
      and n = ?n and h = heap0 and ?w1.0 = ?v1 and ?w2.0 = ?v2 and ?w3.0 = ?v2
      and e = "SystemError ''EACCES''",
      THEN conjunct2, THEN conjunct2, THEN conjunct2, THEN conjunct2, THEN conjunct2,
      THEN conjunct1, THEN mp, OF ref]
  from t3 have r3: "run ?B ?I ?v = (1, ?v2)" by blast
  from t3 have "\<forall>B2 I2. now I2 = now ?I \<longrightarrow> run B2 I2 ?v2 = (0, ?v2)" by blast
  then have l3: "run ?B ?I ?v2 = (0, ?v2)" by blast
  have n3: "nodes ?v2 [''logs'', ''2024'', ''03'', ''2024-03-01.csv''] = None"
    by (simp add: outJson_example world_csv_refused_def)
  show ?thesis
    unfolding r1 r2 r3 using n2 l2 n3 l3 by simp
qed

text \<open>
  Against C3 as stated: on 1 March 2024 the system refuses the write of the CSV
  artifact. The run exits with status 1 and leaves the JSON artifact without its CSV
  artifact; a second run exits with status 0 and the CSV artifact is still missing.
\<close>

theorem csv_write_failure_leaves_json_alone:
  "fst (run sample_builtins run_example world_csv_refused) = 1
   \<and> existsSync (snd (run sample_builtins run_example world_csv_refused)) (outJson run_example)
   \<and> \<not> existsSync (snd (run sample_builtins run_example world_csv_refused)) (outCsv run_example)
   \<and> fst (run sample_builtins run_example (snd (run sample_builtins run_example world_csv_refused))) = 0
   \<and> \<not> existsSync (snd (run sample_builtins run_example
          (snd (run sample_builtins run_example world_csv_refused)))) (outCsv run_example)"
  by (simp add: eval_js eval_archive run_example_def world_csv_refused_def feed_example_def)

text \<open>
  The same day when the write of the JSON artifact stops after 100 bytes: the run exits
  with status 1 and leaves the first 100 bytes of the JSON artifact and no CSV artifact;
  a second run finds a file at the path of the JSON artifact, exits with status 0 and
  writes nothing.
\<close>

lemma json_write_failure_leaves_part:
  "fst (run sample_builtins run_example world_json_cut) = 1
   \<and> (case nodes (snd (run sample_builtins run_example world_json_cut)) (outJson run_example) of
         Some (File (Partial c k)) \<Rightarrow> k
       | _ \<Rightarrow> 0) = 100
   \<and> \<not> existsSync (snd (run sample_builtins run_example world_json_cut)) (outCsv run_example)
   \<and> run sample_builtins run_example (snd (run sample_builtins run_example world_json_cut))
       = (0, snd (run sample_builtins run_example world_json_cut))"
  by (simp add: eval_js eval_archive run_example_def world_json_cut_def feed_example_def)

lemma toCSVRows_empty: "toCSVRows B d [] = ''date,screen,fill_rate''"
  by (simp add: toCSVRows_def sort_cmp_def csv_escape_def)

text \<open>
  C10. When the JSON artifact of the day does not exist yet, the fetch and the
  normalisation succeed, the snapshot of the day is empty, the directory can be made
  and the system refuses neither write, the run returns normally; the JSON artifact
  then holds the payload with \<^verbatim>\<open>count\<close> 0 and \<^verbatim>\<open>rows\<close> the empty array, and the CSV
  artifact holds the header line \<^verbatim>\<open>date,screen,fill_rate\<close> and a newline.
\<close>

theorem empty_snapshot_artifacts:
  "\<not> existsSync w (outJson I)
   \<and> getJSON (fetch I) (clock I) (urls I) = Inr raw
   \<and> normalize B heap0 raw = Inr (n, h)
   \<and> snapshotForDate h n (dateISO I) = []
   \<and> fst (mkdirSync w (outDir I)) = Inr ()
   \<and> \<not> denied w (outJson I) \<and> \<not> denied w (outCsv I) \<and> nodes w (outCsv I) \<noteq> Some Dir
   \<longrightarrow>
     fst (main B I w) = Inr ()
     \<and> nodes (snd (main B I w)) (outJson I) = Some (File (JSON_text (payload I n [])))
     \<and> opt_get (payload I n []) ''count'' = JNum (Fin 0)
     \<and> opt_get (payload I n []) ''rows'' = JArr []
     \<and> nodes (snd (main B I w)) (outCsv I)
         = Some (File (Text (''date,screen,fill_rate'' @ [CHR 0x0A])))"
proof
  assume a: "\<not> existsSync w (outJson I)
   \<and> getJSON (fetch I) (clock I) (urls I) = Inr raw
   \<and> normalize B heap0 raw = Inr (n, h)
   \<and> snapshotForDate h n (dateISO I) = []
   \<and> fst (mkdirSync w (outDir I)) = Inr ()
   \<and> \<not> denied w (outJson I) \<and> \<not> denied w (outCsv I) \<and> nodes w (outCsv I) \<noteq> Some Dir"
  let ?j = "JSON_text (payload I n [])"
  let ?c = "Text (''date,screen,fill_rate'' @ [CHR 0x0A])"
  obtain w1 where mk: "mkdirSync w (outDir I) = (Inr (), w1)"
    using a by (cases "mkdirSync w (outDir I)") auto
  note f = mkdirSync_frame [OF mk]
  from a have nj: "nodes w (outJson I) = None" by (simp add: existsSync_def)
  let ?w2 = "w1\<lparr>nodes := (nodes w1)(outJson I \<mapsto> File ?j), ops := ops w1 @ [WriteFile (outJson I) ?j]\<rparr>"
  let ?w3 = "?w2\<lparr>nodes := (nodes ?w2)(outCsv I \<mapsto> File ?c), ops := ops ?w2 @ [WriteFile (outCsv I) ?c]\<rparr>"
  have jc: "json_content I n h = ?j" "csv_content B I n h = ?c"
    using a by (simp_all add: json_content_def csv_content_def toCSVRows_empty)
  have wj: "writeFileSync w1 (outJson I) ?j = (Inr (), ?w2)"
    using f a nj by (simp add: writeFileSync_def is_dir_def butlast_outJson)
  have wc: "writeFileSync ?w2 (outCsv I) ?c = (Inr (), ?w3)"
    using f a outJson_neq_outCsv [of I] outDir_neq_outJson [of I]
    by (simp add: writeFileSync_def is_dir_def butlast_outCsv)
  from a have pre: "\<not> existsSync w (outJson I)" "getJSON (fetch I) (clock I) (urls I) = Inr raw"
    "normalize B heap0 raw = Inr (n, h)" by simp_all
  have m: "main B I w = (Inr (), ?w3)"
    using mk wj wc by (simp add: main_stages [OF pre] jc)
  have p1: "opt_get (payload I n []) ''count'' = JNum (Fin 0)"
    by (simp add: payload_def opt_get_def)
  have p2: "opt_get (payload I n []) ''rows'' = JArr []"
    by (simp add: payload_def opt_get_def)
  have n1: "nodes ?w3 (outJson I) = Some (File ?j)"
    using outJson_neq_outCsv [of I] by simp
  have n2: "nodes ?w3 (outCsv I) = Some (File ?c)" by simp
  show "fst (main B I w) = Inr ()
     \<and> nodes (snd (main B I w)) (outJson I) = Some (File (JSON_text (payload I n [])))
     \<and> opt_get (payload I n []) ''count'' = JNum (Fin 0)
     \<and> opt_get (payload I n []) ''rows'' = JArr []
     \<and> nodes (snd (main B I w)) (outCsv I)
         = Some (File (Text (''date,screen,fill_rate'' @ [CHR 0x0A])))"
    unfolding m using p1 p2 n1 n2 by simp
qed

theorem empty_snapshot_artifacts_witness:
  "fst (main sample_builtins run_next_day world0) = Inr ()
   \<and> nodes (snd (main sample_builtins run_next_day world0)) [''logs'', ''2024'', ''03'', ''2024-03-02.csv'']
       = Some (File (Text (''date,screen,fill_rate'' @ [CHR 0x0A])))
   \<and> (case nodes (snd (main sample_builtins run_next_day world0))
              [''logs'', ''2024'', ''03'', ''2024-03-02.json''] of
         Some (File (JSON_text p)) \<Rightarrow> opt_get p ''rows''
       | _ \<Rightarrow> JUndefined) = JArr []"
proof -
  let ?n = "\<lparr>dates = [''2024-03-01''], screens = [''A'', ''B''],
           map' = [''A'' \<mapsto> [''2024-03-01'' \<mapsto> Fin (1 / 2)]],
           source_generated_at = JNull\<rparr>"
  have h: "\<not> existsSync world0 (outJson run_next_day)
   \<and> getJSON (fetch run_next_day) (clock run_next_day) (urls run_next_day) = Inr feed_example
   \<and> normalize sample_builtins heap0 feed_example = Inr (?n, heap0)
   \<and> snapshotForDate heap0 ?n (dateISO run_next_day) = []
   \<and> fst (mkdirSync world0 (outDir run_next_day)) = Inr ()
   \<and> \<not> denied world0 (outJson run_next_day) \<and> \<not> denied world0 (outCsv run_next_day)
   \<and> nodes world0 (outCsv run_next_day) \<noteq> Some Dir"
    using normalize_feed_example
    by (simp add: eval_js eval_archive run_next_day_def run_example_def world0_def)
  have p: "outCsv run_next_day = [''logs'', ''2024'', ''03'', ''2024-03-02.csv'']"
    "outJson run_next_day = [''logs'', ''2024'', ''03'', ''2024-03-02.json'']"
    by (simp_all add: eval_js eval_archive run_next_day_def run_example_def)
  from empty_snapshot_artifacts [where B = sample_builtins and I = run_next_day and w = world0
      and raw = feed_example and n = ?n and h = heap0, THEN mp, OF h]
  show ?thesis unfolding p by simp
qed

subsection \<open>Date keys\<close>

lemma digit_nth: "n < 10 \<Longrightarrow> is_digit (''0123456789'' ! n)"
proof -
  assume "n < 10"
  then have "n \<in> {0, 1, 2, 3, 4, 5, 6, 7, 8, 9}" by auto
  then show ?thesis by (auto simp add: is_digit_def)
qed

lemma dec_digit: "dec n \<noteq> [] \<and> is_digit (hd (dec n))"
proof (induction n rule: dec.induct)
  case (1 n)
  have e: "dec n = (if n < 10 then [''0123456789'' ! n]
                    else dec (n div 10) @ [''0123456789'' ! (n mod 10)])"
    by (rule dec.simps)
  show ?case
  proof (cases "n < 10")
    case True
    with digit_nth [of n] show ?thesis unfolding e by simp
  next
    case False
    with 1 show ?thesis unfolding e by (simp add: hd_append)
  qed
qed

lemma padStart_digit:
  "s \<noteq> [] \<Longrightarrow> is_digit (hd s) \<Longrightarrow> padStart k s \<noteq> [] \<and> is_digit (hd (padStart k s))"
  by (cases "k - length s") (simp_all add: padStart_def is_digit_def)

lemma date_key_append: "date_key s \<Longrightarrow> date_key (s @ t)"
  by (simp add: date_key_def hd_append)

lemma date_key_iso_year: "date_key (iso_year y)"
  using padStart_digit [OF dec_digit [THEN conjunct1] dec_digit [THEN conjunct2]]
  by (simp add: iso_year_def date_key_def)

text \<open>The keys under which the Normalizer stores begin with a digit or a sign.\<close>

lemma date_key_iso10: "date_key (iso10 d)"
proof -
  obtain y m d' where d: "d = (y, m, d')" by (cases d)
  let ?s = "iso_year y @ ''-'' @ padStart 2 (dec m) @ ''-'' @ padStart 2 (dec d')"
  have k: "date_key ?s" using date_key_iso_year by (rule date_key_append)
  then have "take 10 ?s \<noteq> [] \<and> hd (take 10 ?s) = hd ?s"
    by (cases ?s) (simp_all add: date_key_def)
  with k show ?thesis by (simp add: d date_key_def)
qed

text \<open>So does the key of the day of the run.\<close>

lemma date_key_dateISO: "date_key (dateISO I)"
proof -
  obtain y m d where n: "now I = (y, m, d)" by (cases "now I")
  have "date_key (yyyy I)"
    using dec_digit [of "nat y"] dec_digit [of "nat (- y)"]
    by (simp add: yyyy_def n dec_int_def date_key_def)
  then show ?thesis unfolding dateISO_def by (rule date_key_append)
qed

text \<open>No such key is a name that plain objects inherit.\<close>

lemma date_key_not_inherited: "date_key s \<Longrightarrow> \<not> inherited s"
  by (auto simp add: date_key_def inherited_def inherited_names_def is_digit_def)

subsection \<open>Normalizer\<close>

lemma normalize_day_skip:
  "day \<noteq> JNull \<Longrightarrow> day \<noteq> JUndefined \<Longrightarrow> new_Date B (opt_get day ''date'') = Inr None \<Longrightarrow>
   normalize_day B s day = Inr s"
  by (cases s) (simp add: get_def)

lemma normalize_days_skip:
  assumes "\<And>s. normalize_day B s day = Inr s"
  shows "normalize_days B s (pre @ day # post) = normalize_days B s (pre @ post)"
proof (induction pre arbitrary: s)
  case Nil
  show ?case by (simp add: assms)
next
  case (Cons a pre)
  show ?case by (cases "normalize_day B s a") (simp_all add: Cons.IH)
qed

text \<open>
  A day-record (any value but \<^verbatim>\<open>null\<close>) for whose date field \<^verbatim>\<open>new Date\<close> gives an Invalid
  Date is skipped whole: the loop body returns the state it was given, with no date
  appended to \<open>dates\<close>, no name added to \<open>screens\<close> and no value stored; and the Normalizer
  gives for a feed that holds such a day-record, with whatever rows, exactly what it
  gives for the feed without it.
\<close>

lemma normalize_skips_invalid_date:
  "day \<noteq> JNull \<and> day \<noteq> JUndefined \<and> new_Date B (opt_get day ''date'') = Inr None \<longrightarrow>
     normalize_day B s day = Inr s
     \<and> normalize B h (JObj ((''result'', JArr (pre @ day # post)) # kvs))
         = normalize B h (JObj ((''result'', JArr (pre @ post)) # kvs))"
proof
  assume a: "day \<noteq> JNull \<and> day \<noteq> JUndefined \<and> new_Date B (opt_get day ''date'') = Inr None"
  then have skip: "\<And>s. normalize_day B s day = Inr s"
    by (simp add: normalize_day_skip)
  have "normalize_days B (nstate0, h) (pre @ day # post) = normalize_days B (nstate0, h) (pre @ post)"
    using skip by (rule normalize_days_skip)
  then have "normalize B h (JObj ((''result'', JArr (pre @ day # post)) # kvs))
         = normalize B h (JObj ((''result'', JArr (pre @ post)) # kvs))"
    by (simp add: normalize_def opt_get_def split: sum.splits prod.splits)
  with skip show "normalize_day B s day = Inr s
     \<and> normalize B h (JObj ((''result'', JArr (pre @ day # post)) # kvs))
         = normalize B h (JObj ((''result'', JArr (pre @ post)) # kvs))"
    by simp
qed

text \<open>The feed of the example with an undated day-record before it gives what the example gives.\<close>

lemma normalize_feed_undated:
  "normalize sample_builtins heap0 feed_undated =
     Inr (\<lparr>dates = [''2024-03-01''], screens = [''A'', ''B''],
           map' = [''A'' \<mapsto> [''2024-03-01'' \<mapsto> Fin (1 / 2)]],
           source_generated_at = JNull\<rparr>, heap0)"
proof -
  let ?day = "JObj [(''rows'', JArr [JObj [(''du_name'', JStr ''C''), (''fill_rate'', JNum (Fin 1))]])]"
  have h: "?day \<noteq> JNull \<and> ?day \<noteq> JUndefined
      \<and> new_Date sample_builtins (opt_get ?day ''date'') = Inr None"
    by (simp add: sample_builtins_def sample_DateUTC_def opt_get_def new_Date_def ToPrimitive_def)
  from normalize_skips_invalid_date [where day = ?day and B = sample_builtins and h = heap0
      and pre = "[]" and kvs = "[]", THEN mp, OF h, THEN conjunct2]
  show ?thesis
    using normalize_feed_example by (simp add: feed_undated_def feed_example_def)
qed

lemma set_first_seen: "set (first_seen xs) = set xs"
  by (induction xs) auto

lemma distinct_first_seen: "distinct (first_seen xs)"
  by (induction xs) (auto simp add: set_first_seen)

lemma foldl_first_seen:
  "foldl (\<lambda>a x. if x \<in> set a then a else a @ [x]) acc xs
     = acc @ filter (\<lambda>y. y \<notin> set acc) (first_seen xs)"
proof (induction xs arbitrary: acc)
  case Nil
  show ?case by simp
next
  case (Cons x xs)
  show ?case
  proof (cases "x \<in> set acc")
    case True
    have "filter (\<lambda>y. y \<notin> set acc) (filter (\<lambda>y. y \<noteq> x) (first_seen xs))
          = filter (\<lambda>y. y \<notin> set acc) (first_seen xs)"
      using True by (auto intro: filter_cong)
    with True show ?thesis by (simp add: Cons.IH)
  next
    case False
    have "filter (\<lambda>y. y \<notin> set (acc @ [x])) (first_seen xs)
          = filter (\<lambda>y. y \<notin> set acc) (filter (\<lambda>y. y \<noteq> x) (first_seen xs))"
      by (auto intro: filter_cong)
    with False show ?thesis by (simp add: Cons.IH)
  qed
qed

lemma store_frame:
  "store name d v (st, h) = Inr (st', h') \<Longrightarrow>
   seen st' = seen st \<and> screensOrder st' = screensOrder st \<and> dates_acc st' = dates_acc st"
  by (auto split: option.splits if_splits)

text \<open>The ways the body of the inner loop returns.\<close>

lemma normalize_row_cases:
  assumes "normalize_row B d (st, h) rec = Inr (st', h')"
  obtains (unnamed) "screen_name B rec = Inr []" "st' = st" "h' = h"
    | (dropped) name v where "screen_name B rec = Inr name" "name \<noteq> []"
        "ToNumber B (opt_get rec ''fill_rate'') = Inr v" "isNaN v" "h' = h"
        "st' = (if name \<in> seen st then st
                else st\<lparr>seen := insert name (seen st), screensOrder := screensOrder st @ [name]\<rparr>)"
    | (stored) name v where "screen_name B rec = Inr name" "name \<noteq> []"
        "ToNumber B (opt_get rec ''fill_rate'') = Inr v" "\<not> isNaN v"
        "store name d v
           (if name \<in> seen st then st
            else st\<lparr>seen := insert name (seen st), screensOrder := screensOrder st @ [name]\<rparr>, h)
         = Inr (st', h')"
proof (cases "screen_name B rec")
  case (Inl e)
  with assms show ?thesis by simp
next
  case (Inr name)
  show ?thesis
  proof (cases "name = []")
    case True
    with Inr assms unnamed show ?thesis by simp
  next
    case False
    show ?thesis
    proof (cases "ToNumber B (opt_get rec ''fill_rate'')")
      case (Inl e)
      with Inr False assms show ?thesis by (simp add: Let_def)
    next
      case v: (Inr v)
      show ?thesis
      proof (cases "isNaN v")
        case True
        with Inr False v assms dropped [of name v] show ?thesis
          by (simp add: Let_def split: if_splits)
      next
        case n: False
        with Inr False v assms stored [of name v] show ?thesis
          by (simp add: Let_def split: if_splits)
      qed
    qed
  qed
qed

lemma normalize_row_screens:
  assumes "seen st = set (screensOrder st)" "normalize_row B d (st, h) rec = Inr (st', h')"
  shows "seen st' = set (screensOrder st')
    \<and> screensOrder st' = foldl (\<lambda>a x. if x \<in> set a then a else a @ [x]) (screensOrder st)
          (row_names B rec)"
  using assms(2)
proof (cases rule: normalize_row_cases)
  case unnamed
  with assms(1) show ?thesis by (simp add: row_names_def)
next
  case (dropped name v)
  with assms(1) show ?thesis by (auto simp add: row_names_def)
next
  case (stored name v)
  let ?st1 = "if name \<in> seen st then st
              else st\<lparr>seen := insert name (seen st), screensOrder := screensOrder st @ [name]\<rparr>"
  from store_frame [OF stored(5)]
  have "seen st' = seen ?st1 \<and> screensOrder st' = screensOrder ?st1" by simp
  with stored(1,2) assms(1) show ?thesis by (auto simp add: row_names_def)
qed

lemma normalize_rows_screens:
  assumes "seen st = set (screensOrder st)" "normalize_rows B d (st, h) recs = Inr (st', h')"
  shows "seen st' = set (screensOrder st')
    \<and> screensOrder st' = foldl (\<lambda>a x. if x \<in> set a then a else a @ [x]) (screensOrder st)
          (concat (map (row_names B) recs))"
  using assms
proof (induction recs arbitrary: st h)
  case Nil
  then show ?case by simp
next
  case (Cons r recs)
  from Cons.prems(2) obtain st1 h1 where
    r: "normalize_row B d (st, h) r = Inr (st1, h1)" and
    f: "normalize_rows B d (st1, h1) recs = Inr (st', h')"
    by (auto simp del: normalize_row.simps split: sum.splits)
  note a = normalize_row_screens [OF Cons.prems(1) r]
  from a have i: "seen st1 = set (screensOrder st1)" by simp
  from Cons.IH [OF i f] a show ?case by simp
qed

lemma normalize_day_screens:
  assumes "seen st = set (screensOrder st)" "normalize_day B (st, h) day = Inr (st', h')"
  shows "seen st' = set (screensOrder st')
    \<and> screensOrder st' = foldl (\<lambda>a x. if x \<in> set a then a else a @ [x]) (screensOrder st)
          (day_names B day)"
proof -
  from assms(2) have g: "get day ''date'' = Inr (opt_get day ''date'')"
    by (auto simp add: get_def split: if_splits sum.splits)
  from assms(2) g obtain od where nd: "new_Date B (opt_get day ''date'') = Inr od"
    by (cases "new_Date B (opt_get day ''date'')") auto
  show ?thesis
  proof (cases od)
    case None
    with assms g nd show ?thesis by (simp add: day_names_def)
  next
    case (Some d)
    let ?st1 = "st\<lparr>dates_acc := dates_acc st @ [iso10 d]\<rparr>"
    from assms(2) g nd Some obtain recs where
      r: "rows_of day = Inr recs" and
      f: "normalize_rows B (iso10 d) (?st1, h) recs = Inr (st', h')"
      by (auto simp add: Let_def split: sum.splits)
    have i: "seen ?st1 = set (screensOrder ?st1)" using assms(1) by simp
    from normalize_rows_screens [OF i f] nd Some r show ?thesis
      by (simp add: day_names_def)
  qed
qed

lemma normalize_days_screens:
  assumes "seen st = set (screensOrder st)" "normalize_days B (st, h) days = Inr (st', h')"
  shows "seen st' = set (screensOrder st')
    \<and> screensOrder st' = foldl (\<lambda>a x. if x \<in> set a then a else a @ [x]) (screensOrder st)
          (concat (map (day_names B) days))"
  using assms
proof (induction days arbitrary: st h)
  case Nil
  then show ?case by simp
next
  case (Cons day days)
  from Cons.prems(2) obtain st1 h1 where
    d: "normalize_day B (st, h) day = Inr (st1, h1)" and
    r: "normalize_days B (st1, h1) days = Inr (st', h')"
    by (auto simp del: normalize_day.simps split: sum.splits)
  note a = normalize_day_screens [OF Cons.prems(1) d]
  from a have i: "seen st1 = set (screensOrder st1)" by simp
  from Cons.IH [OF i r] a show ?case by simp
qed

text \<open>
  C6. Whenever the Normalizer returns, \<open>screens\<close> holds no name twice and is the
  first-seen order of the names the feed presents: the trimmed, non-empty names of the
  rows of the day-records with a valid date, in the order of the feed. No comparison
  of names enters.
\<close>

theorem normalize_screens_first_seen:
  "normalize B h raw = Inr (n, h') \<longrightarrow>
     distinct (screens n) \<and> screens n = first_seen (feed_names B raw)"
proof
  assume a: "normalize B h raw = Inr (n, h')"
  then obtain days where d: "opt_get raw ''result'' = JArr days"
    by (auto simp add: normalize_def split: if_splits jsval.splits)
  with a obtain st where
    r: "normalize_days B (nstate0, h) days = Inr (st, h')" and n: "screens n = screensOrder st"
    by (auto simp add: normalize_def split: if_splits sum.splits)
  have i: "seen nstate0 = set (screensOrder nstate0)" by (simp add: nstate0_def)
  from normalize_days_screens [OF i r] n d
  have "screens n = first_seen (feed_names B raw)"
    by (simp add: nstate0_def foldl_first_seen feed_names_def)
  then show "distinct (screens n) \<and> screens n = first_seen (feed_names B raw)"
    by (simp add: distinct_first_seen)
qed

lemma normalize_feed_order:
  "\<exists>n h'. normalize sample_builtins heap0 feed_order = Inr (n, h')"
  by (simp add: eval_js feed_order_def)

lemma feed_names_order:
  "feed_names sample_builtins feed_order = [''Zeta'', ''Alpha'', ''Zeta'', ''Beta'']"
  by (simp add: eval_js feed_order_def feed_names_def day_names_def row_names_def)

theorem normalize_screens_first_seen_witness:
  "(case normalize sample_builtins heap0 feed_order of Inr (n, h') \<Rightarrow> screens n | Inl e \<Rightarrow> [])
     = [''Zeta'', ''Alpha'', ''Beta'']"
proof -
  from normalize_feed_order obtain n h' where
    a: "normalize sample_builtins heap0 feed_order = Inr (n, h')" by blast
  from normalize_screens_first_seen [where B = sample_builtins and h = heap0 and raw = feed_order
      and n = n and h' = h', THEN mp, OF a]
  have "screens n = [''Zeta'', ''Alpha'', ''Beta'']"
    by (simp add: feed_names_order)
  with a show ?thesis by simp
qed

lemma store_lookup:
  "store name d v (st, h) = Inr (st', h') \<Longrightarrow> lookup_number h' (map_acc st') name d = Some v"
  by (auto simp add: lookup_number_def split: option.splits if_splits)

text \<open>A store throws only for a shadowed name.\<close>

lemma store_returns:
  "\<not> shadowed st h name \<Longrightarrow> \<exists>st' h'. store name d v (st, h) = Inr (st', h')"
  by (auto simp add: shadowed_def split: option.splits)

lemma store_throws:
  "shadowed st h name \<Longrightarrow> store name d v (st, h) = Inl (TypeError (Set_on_number d))"
  by (auto simp add: shadowed_def split: option.splits)

lemma store_no_NaN:
  assumes "no_NaN (map_acc st) h" "\<not> isNaN v" "store name d v (st, h) = Inr (st', h')"
  shows "no_NaN (map_acc st') h'"
proof (cases "map_acc st name")
  case None
  show ?thesis
  proof (cases "inherited name")
    case True
    with None assms(3) have e: "st' = st" "h' = h(name := (h name)(d \<mapsto> v))" by auto
    show ?thesis using assms(1,2) unfolding no_NaN_def e by (auto split: if_splits)
  next
    case False
    with None assms(3) have e: "map_acc st' = (map_acc st)(name \<mapsto> [d \<mapsto> v])" "h' = h"
      by (auto split: option.splits if_splits)
    show ?thesis using assms(1,2) unfolding no_NaN_def e by (auto split: if_splits)
  qed
next
  case (Some inner)
  with assms(3) have e: "map_acc st' = (map_acc st)(name \<mapsto> inner(d \<mapsto> v))" "h' = h" by auto
  show ?thesis using assms(1,2) Some unfolding no_NaN_def e by (auto split: if_splits)
qed

lemma normalize_row_no_NaN:
  assumes "no_NaN (map_acc st) h" "normalize_row B d (st, h) rec = Inr (st', h')"
  shows "no_NaN (map_acc st') h'"
  using assms(2)
proof (cases rule: normalize_row_cases)
  case unnamed
  with assms(1) show ?thesis by simp
next
  case (dropped name v)
  with assms(1) show ?thesis by simp
next
  case (stored name v)
  let ?st1 = "if name \<in> seen st then st
              else st\<lparr>seen := insert name (seen st), screensOrder := screensOrder st @ [name]\<rparr>"
  from assms(1) have "no_NaN (map_acc ?st1) h" by simp
  from store_no_NaN [OF this stored(4,5)] show ?thesis .
qed

lemma normalize_rows_no_NaN:
  "no_NaN (map_acc st) h \<Longrightarrow> normalize_rows B d (st, h) recs = Inr (st', h') \<Longrightarrow>
   no_NaN (map_acc st') h'"
proof (induction recs arbitrary: st h)
  case Nil
  then show ?case by simp
next
  case (Cons r recs)
  from Cons.prems(2) obtain st1 h1 where
    r: "normalize_row B d (st, h) r = Inr (st1, h1)" and
    f: "normalize_rows B d (st1, h1) recs = Inr (st', h')"
    by (auto simp del: normalize_row.simps split: sum.splits)
  from Cons.IH [OF normalize_row_no_NaN [OF Cons.prems(1) r] f] show ?case .
qed

lemma normalize_day_no_NaN:
  assumes "no_NaN (map_acc st) h" "normalize_day B (st, h) day = Inr (st', h')"
  shows "no_NaN (map_acc st') h'"
proof (cases "get day ''date''")
  case (Inl e)
  with assms(2) show ?thesis by simp
next
  case (Inr dv)
  show ?thesis
  proof (cases "new_Date B dv")
    case (Inl e)
    with Inr assms(2) show ?thesis by simp
  next
    case od: (Inr od)
    show ?thesis
    proof (cases od)
      case None
      with Inr od assms show ?thesis by simp
    next
      case (Some d)
      let ?st1 = "st\<lparr>dates_acc := dates_acc st @ [iso10 d]\<rparr>"
      from assms(2) Inr od Some obtain recs where
        f: "normalize_rows B (iso10 d) (?st1, h) recs = Inr (st', h')"
        by (auto simp add: Let_def split: sum.splits)
      from assms(1) have "no_NaN (map_acc ?st1) h" by simp
      from normalize_rows_no_NaN [OF this f] show ?thesis .
    qed
  qed
qed

lemma normalize_days_no_NaN:
  "no_NaN (map_acc st) h \<Longrightarrow> normalize_days B (st, h) days = Inr (st', h') \<Longrightarrow>
   no_NaN (map_acc st') h'"
proof (induction days arbitrary: st h)
  case Nil
  then show ?case by simp
next
  case (Cons day days)
  from Cons.prems(2) obtain st1 h1 where
    d: "normalize_day B (st, h) day = Inr (st1, h1)" and
    r: "normalize_days B (st1, h1) days = Inr (st', h')"
    by (auto simp del: normalize_day.simps split: sum.splits)
  from Cons.IH [OF normalize_day_no_NaN [OF Cons.prems(1) d] r] show ?case .
qed

lemma normalize_no_NaN:
  assumes "normalize B heap0 raw = Inr (n, h')"
  shows "no_NaN (map' n) h'"
proof -
  from assms obtain days where d: "opt_get raw ''result'' = JArr days"
    by (auto simp add: normalize_def split: if_splits jsval.splits)
  with assms obtain st where
    r: "normalize_days B (nstate0, heap0) days = Inr (st, h')" and n: "map' n = map_acc st"
    by (auto simp add: normalize_def split: if_splits sum.splits)
  have "no_NaN (map_acc nstate0) heap0" by (simp add: no_NaN_def nstate0_def heap0_def)
  from normalize_days_no_NaN [OF this r] n show ?thesis by simp
qed

lemma lookup_no_NaN: "no_NaN m h \<Longrightarrow> lookup_number h m s d = Some v \<Longrightarrow> \<not> isNaN v"
  by (auto simp add: no_NaN_def lookup_number_def split: option.splits if_splits)

text \<open>The rows on which the body of the inner loop throws.\<close>

lemma normalize_row_throws:
  "(screen_name B rec = Inl e \<longrightarrow> normalize_row B d (st, h) rec = Inl e)
   \<and> (screen_name B rec = Inr name \<and> name \<noteq> [] \<and> ToNumber B (opt_get rec ''fill_rate'') = Inl e
        \<longrightarrow> normalize_row B d (st, h) rec = Inl e)
   \<and> (screen_name B rec = Inr name \<and> name \<noteq> [] \<and> ToNumber B (opt_get rec ''fill_rate'') = Inr v
        \<and> \<not> isNaN v \<and> shadowed st h name
        \<longrightarrow> normalize_row B d (st, h) rec = Inl (TypeError (Set_on_number d)))"
proof (intro conjI impI)
  assume "screen_name B rec = Inl e"
  then show "normalize_row B d (st, h) rec = Inl e" by simp
next
  assume "screen_name B rec = Inr name \<and> name \<noteq> [] \<and> ToNumber B (opt_get rec ''fill_rate'') = Inl e"
  then show "normalize_row B d (st, h) rec = Inl e" by (simp add: Let_def)
next
  let ?st1 = "if name \<in> seen st then st
              else st\<lparr>seen := insert name (seen st), screensOrder := screensOrder st @ [name]\<rparr>"
  assume a: "screen_name B rec = Inr name \<and> name \<noteq> []
      \<and> ToNumber B (opt_get rec ''fill_rate'') = Inr v \<and> \<not> isNaN v \<and> shadowed st h name"
  then have "shadowed ?st1 h name" by (simp add: shadowed_def)
  then have "store name d v (?st1, h) = Inl (TypeError (Set_on_number d))" by (rule store_throws)
  with a show "normalize_row B d (st, h) rec = Inl (TypeError (Set_on_number d))"
    by (simp add: Let_def del: store.simps)
qed

text \<open>
  C1, as amended. For every row the Normalizer processes in a day-record with date key
  \<open>d\<close>: a row whose trimmed name is empty is passed over, with nothing changed. For a row
  with a name and a value that \<^verbatim>\<open>Number\<close> converts to \<open>v\<close>: when \<open>v\<close> is \<open>NaN\<close> the loop body
  returns and nothing is stored (the object \<^verbatim>\<open>map\<close> and the heap are as before);
  otherwise, unless the name is shadowed, the loop body returns and \<open>v\<close>, finite or
  infinite, is stored and is what \<^verbatim>\<open>map[name][d]\<close> then reads. And no number that can be
  read from the \<^verbatim>\<open>map\<close> the Normalizer returns is \<open>NaN\<close>.
\<close>

theorem normalize_row_retains_non_NaN:
  "(screen_name B rec = Inr [] \<longrightarrow> normalize_row B d (st, h) rec = Inr (st, h))
   \<and> (screen_name B rec = Inr name \<and> name \<noteq> []
        \<and> ToNumber B (opt_get rec ''fill_rate'') = Inr v \<and> isNaN v
        \<longrightarrow> (\<exists>st'. normalize_row B d (st, h) rec = Inr (st', h) \<and> map_acc st' = map_acc st))
   \<and> (screen_name B rec = Inr name \<and> name \<noteq> []
        \<and> ToNumber B (opt_get rec ''fill_rate'') = Inr v \<and> \<not> isNaN v \<and> \<not> shadowed st h name
        \<longrightarrow> (\<exists>st' h'. normalize_row B d (st, h) rec = Inr (st', h')
               \<and> lookup_number h' (map_acc st') name d = Some v))
   \<and> (normalize B heap0 raw = Inr (n, hn) \<and> lookup_number hn (map' n) s e = Some x \<longrightarrow>
        \<not> isNaN x)"
proof (intro conjI impI)
  assume "screen_name B rec = Inr []"
  then show "normalize_row B d (st, h) rec = Inr (st, h)" by simp
next
  assume "screen_name B rec = Inr name \<and> name \<noteq> []
      \<and> ToNumber B (opt_get rec ''fill_rate'') = Inr v \<and> isNaN v"
  then show "\<exists>st'. normalize_row B d (st, h) rec = Inr (st', h) \<and> map_acc st' = map_acc st"
    by (simp add: Let_def)
next
  let ?st1 = "if name \<in> seen st then st
              else st\<lparr>seen := insert name (seen st), screensOrder := screensOrder st @ [name]\<rparr>"
  assume a: "screen_name B rec = Inr name \<and> name \<noteq> []
      \<and> ToNumber B (opt_get rec ''fill_rate'') = Inr v \<and> \<not> isNaN v \<and> \<not> shadowed st h name"
  then have "\<not> shadowed ?st1 h name" by (simp add: shadowed_def)
  from store_returns [OF this] obtain st' h' where
    s: "store name d v (?st1, h) = Inr (st', h')" by blast
  with a have "normalize_row B d (st, h) rec = Inr (st', h')"
    by (simp add: Let_def del: store.simps)
  with store_lookup [OF s]
  show "\<exists>st' h'. normalize_row B d (st, h) rec = Inr (st', h')
      \<and> lookup_number h' (map_acc st') name d = Some v"
    by blast
next
  assume c: "normalize B heap0 raw = Inr (n, hn) \<and> lookup_number hn (map' n) s e = Some x"
  then have "no_NaN (map' n) hn" using normalize_no_NaN by blast
  with c show "\<not> isNaN x" using lookup_no_NaN by blast
qed

lemma lookup_feed_infinite:
  "lookup_number (snd (projr (normalize sample_builtins heap0 feed_infinite)))
     (map' (fst (projr (normalize sample_builtins heap0 feed_infinite)))) ''A'' ''2024-03-01''
   = Some PInf"
  by (simp add: eval_js feed_infinite_def lookup_number_def)

lemma normalize_feed_infinite:
  "normalize sample_builtins heap0 feed_infinite
     = Inr (fst (projr (normalize sample_builtins heap0 feed_infinite)),
            snd (projr (normalize sample_builtins heap0 feed_infinite)))"
  by (simp add: eval_js feed_infinite_def)

theorem normalize_row_retains_non_NaN_witness:
  "(case normalize_row sample_builtins ''2024-03-01'' (nstate0, heap0)
           (JObj [(''du_name'', JStr ''A''), (''fill_rate'', JNum PInf)]) of
      Inr (st', h') \<Rightarrow> lookup_number h' (map_acc st') ''A'' ''2024-03-01''
    | Inl e \<Rightarrow> None) = Some PInf
   \<and> (case normalize_row sample_builtins ''2024-03-01'' (nstate0, heap0)
           (JObj [(''du_name'', JStr ''B''), (''fill_rate'', JStr ''bad'')]) of
      Inr (st', h') \<Rightarrow> map_acc st' ''B''
    | Inl e \<Rightarrow> Some Map.empty) = None
   \<and> normalize_row sample_builtins ''2024-03-01'' (nstate0, heap0)
           (JObj [(''du_name'', JStr ''  ''), (''fill_rate'', JNum (Fin 1))])
       = Inr (nstate0, heap0)
   \<and> \<not> isNaN (case lookup_number (snd (projr (normalize sample_builtins heap0 feed_infinite)))
                   (map' (fst (projr (normalize sample_builtins heap0 feed_infinite))))
                   ''A'' ''2024-03-01'' of Some x \<Rightarrow> x | None \<Rightarrow> NaN)"
proof -
  let ?a = "JObj [(''du_name'', JStr ''A''), (''fill_rate'', JNum PInf)]"
  let ?b = "JObj [(''du_name'', JStr ''B''), (''fill_rate'', JStr ''bad'')]"
  let ?c = "JObj [(''du_name'', JStr ''  ''), (''fill_rate'', JNum (Fin 1))]"
  let ?n = "fst (projr (normalize sample_builtins heap0 feed_infinite))"
  let ?hn = "snd (projr (normalize sample_builtins heap0 feed_infinite))"
  have na: "screen_name sample_builtins ?a = Inr ''A'' \<and> ''A'' \<noteq> []
      \<and> ToNumber sample_builtins (opt_get ?a ''fill_rate'') = Inr PInf \<and> \<not> isNaN PInf
      \<and> \<not> shadowed nstate0 heap0 ''A''"
    by (simp add: eval_js shadowed_def)
  have nb: "screen_name sample_builtins ?b = Inr ''B'' \<and> ''B'' \<noteq> []
      \<and> ToNumber sample_builtins (opt_get ?b ''fill_rate'') = Inr NaN \<and> isNaN NaN"
    by (simp add: eval_js)
  have nc: "screen_name sample_builtins ?c = Inr []"
    by (simp add: eval_js)
  from normalize_row_retains_non_NaN [where B = sample_builtins and d = "''2024-03-01''"
      and st = nstate0 and h = heap0 and rec = ?a and name = "''A''" and v = PInf,
      THEN conjunct2, THEN conjunct2, THEN conjunct1, THEN mp, OF na]
  have x: "(case normalize_row sample_builtins ''2024-03-01'' (nstate0, heap0) ?a of
      Inr (st', h') \<Rightarrow> lookup_number h' (map_acc st') ''A'' ''2024-03-01''
    | Inl e \<Rightarrow> None) = Some PInf"
    by auto
  from normalize_row_retains_non_NaN [where B = sample_builtins and d = "''2024-03-01''"
      and st = nstate0 and h = heap0 and rec = ?b and name = "''B''" and v = NaN,
      THEN conjunct2, THEN conjunct1, THEN mp, OF nb]
  have y: "(case normalize_row sample_builtins ''2024-03-01'' (nstate0, heap0) ?b of
      Inr (st', h') \<Rightarrow> map_acc st' ''B''
    | Inl e \<Rightarrow> Some Map.empty) = None"
    by (auto simp add: nstate0_def)
  from normalize_row_retains_non_NaN [where B = sample_builtins and d = "''2024-03-01''"
      and st = nstate0 and h = heap0 and rec = ?c, THEN conjunct1, THEN mp, OF nc]
  have w: "normalize_row sample_builtins ''2024-03-01'' (nstate0, heap0) ?c = Inr (nstate0, heap0)" .
  from normalize_row_retains_non_NaN [where B = sample_builtins and raw = feed_infinite
      and n = ?n and hn = ?hn and s = "''A''" and e = "''2024-03-01''" and x = PInf,
      THEN conjunct2, THEN conjunct2, THEN conjunct2, THEN mp]
    normalize_feed_infinite lookup_feed_infinite
  have z: "\<not> isNaN PInf" by blast
  from x y w z lookup_feed_infinite show ?thesis by simp
qed

text \<open>
  Against C1 as stated: the Normalizer keeps the infinite value of screen A, which is no
  finite number, and keeps 0 for the \<^verbatim>\<open>null\<close> of screen B.
\<close>

theorem normalize_keeps_infinity:
  "(case normalize sample_builtins heap0 feed_infinite of
      Inr (n, h) \<Rightarrow> (lookup_number h (map' n) ''A'' ''2024-03-01'',
                     lookup_number h (map' n) ''B'' ''2024-03-01'')
    | Inl e \<Rightarrow> (None, None)) = (Some PInf, Some (Fin 0))
   \<and> \<not> isFinite PInf"
  by (simp add: eval_js feed_infinite_def lookup_number_def)

text \<open>
  A value that is an object with a property \<^verbatim>\<open>toString\<close> is not dropped: \<^verbatim>\<open>Number\<close> throws
  a TypeError on it and the Normalizer throws with it.
\<close>

lemma normalize_feed_value_object:
  "normalize sample_builtins heap0 feed_value_object = Inl (TypeError Not_primitive)"
  by (simp add: eval_js feed_value_object_def)

text \<open>
  C5, at the failing input: the first day-record of the feed has the object
  \<^verbatim>\<open>{"toString": 1}\<close> for its date, which is no calendar date. The day-record is not
  skipped: \<^verbatim>\<open>new Date\<close> throws a TypeError on the object and the Normalizer throws with
  it, although the feed without that day-record is normalized.
\<close>

theorem unconvertible_date_aborts_normalize:
  "normalize sample_builtins heap0 feed_date_object = Inl (TypeError Not_primitive)
   \<and> normalize sample_builtins heap0 feed_example =
       Inr (\<lparr>dates = [''2024-03-01''], screens = [''A'', ''B''],
             map' = [''A'' \<mapsto> [''2024-03-01'' \<mapsto> Fin (1 / 2)]],
             source_generated_at = JNull\<rparr>, heap0)"
  by (simp add: eval_js feed_date_object_def feed_example_def)

subsection \<open>Vendor session\<close>




lemmas eval_vendor = vfetch_def login_def session_of_def is_session_def json_def cookie_header_def
  vendor_401_def session_expired_def



subsection \<open>Snapshot and CSV order\<close>

lemma obj_set_plain:
  "k \<noteq> ''__proto__'' \<Longrightarrow> \<not> is_array_index k \<Longrightarrow> k \<notin> fst ` set ob \<Longrightarrow>
   obj_set ob k v = ob @ [(k, v)]"
  by (simp add: obj_set_def map_of_eq_None_iff)

lemma snapshot_loop_plain:
  "distinct xs \<Longrightarrow> fst ` set out \<inter> set xs = {} \<Longrightarrow>
   \<forall>s \<in> set xs. s \<noteq> ''__proto__'' \<and> \<not> is_array_index s \<Longrightarrow>
   foldl (\<lambda>out s. case f s of Some v \<Rightarrow> obj_set out s v | None \<Rightarrow> out) out xs
     = out @ List.map_filter (\<lambda>s. map_option (Pair s) (f s)) xs"
proof (induction xs arbitrary: out)
  case Nil
  show ?case by (simp add: List.map_filter_simps)
next
  case (Cons s xs)
  show ?case
  proof (cases "f s")
    case None
    from Cons.prems have "fst ` set out \<inter> set xs = {}" by auto
    with Cons.IH [of out] Cons.prems None show ?thesis
      by (simp add: List.map_filter_simps)
  next
    case (Some v)
    from Cons.prems have e: "obj_set out s v = out @ [(s, v)]"
      by (intro obj_set_plain) auto
    from Cons.prems have "fst ` set (out @ [(s, v)]) \<inter> set xs = {}" by auto
    with Cons.IH [of "out @ [(s, v)]"] Cons.prems Some e show ?thesis
      by (simp add: List.map_filter_simps)
  qed
qed

text \<open>
  When no screen name is an array index or \<^verbatim>\<open>__proto__\<close>, the snapshot lists the screens
  that have a number for the date in the order of \<open>screens\<close>, and so do the \<^verbatim>\<open>rows\<close> of the
  payload.
\<close>

lemma snapshotForDate_plain_names:
  assumes "distinct (screens n)"
    and "\<forall>s \<in> set (screens n). s \<noteq> ''__proto__'' \<and> \<not> is_array_index s"
  shows "snapshotForDate h n d
    = List.map_filter (\<lambda>s. map_option (Pair s) (lookup_number h (map' n) s d)) (screens n)"
  unfolding snapshotForDate_def
  using snapshot_loop_plain [OF assms(1) _ assms(2), of "[]" "\<lambda>s. lookup_number h (map' n) s d"]
  by simp

lemma mset_insort_cmp: "mset (insort_cmp c x ys) = add_mset x (mset ys)"
  by (induction ys) auto

lemma mset_sort_cmp_aux:
  "mset (foldl (\<lambda>acc x. insort_cmp c x acc) acc xs) = mset acc + mset xs"
  by (induction xs arbitrary: acc) (auto simp add: mset_insort_cmp)

lemma mset_sort_cmp: "mset (sort_cmp c xs) = mset xs"
  by (simp add: sort_cmp_def mset_sort_cmp_aux)

lemma set_insort_cmp: "set (insort_cmp c x ys) = insert x (set ys)"
  by (induction ys) auto

lemma sorted_insort_cmp:
  assumes asym: "\<And>a b. c a b < 0 \<Longrightarrow> \<not> c b a < 0"
    and trans: "\<And>a b e. c a b < 0 \<Longrightarrow> c b e < 0 \<Longrightarrow> c a e < 0"
  shows "sorted_wrt (\<lambda>a b. \<not> c b a < 0) ys \<Longrightarrow> sorted_wrt (\<lambda>a b. \<not> c b a < 0) (insort_cmp c x ys)"
proof (induction ys)
  case Nil
  show ?case by simp
next
  case (Cons y ys)
  show ?case
  proof (cases "c x y < 0")
    case True
    have "\<not> c z x < 0" if "z \<in> set ys" for z
    proof
      assume "c z x < 0"
      from this True have "c z y < 0" by (rule trans)
      with Cons.prems that show False by auto
    qed
    with True Cons.prems asym show ?thesis by auto
  next
    case False
    with Cons show ?thesis by (auto simp add: set_insort_cmp)
  qed
qed

text \<open>
  For a comparator whose ``less than'' is asymmetric and transitive, as a collation's is,
  the sorted keys are a rearrangement of the keys in which no key comes before one it
  is greater than.
\<close>

lemma sort_cmp_sorted:
  assumes asym: "\<And>a b. c a b < 0 \<Longrightarrow> \<not> c b a < 0"
    and trans: "\<And>a b e. c a b < 0 \<Longrightarrow> c b e < 0 \<Longrightarrow> c a e < 0"
  shows "sorted_wrt (\<lambda>a b. \<not> c b a < 0) (sort_cmp c xs) \<and> mset (sort_cmp c xs) = mset xs"
proof -
  have "sorted_wrt (\<lambda>a b. \<not> c b a < 0) acc \<Longrightarrow>
      sorted_wrt (\<lambda>a b. \<not> c b a < 0) (foldl (\<lambda>acc x. insort_cmp c x acc) acc xs)" for acc
  proof (induction xs arbitrary: acc)
    case Nil
    then show ?case by simp
  next
    case (Cons x xs)
    from sorted_insort_cmp [OF asym trans Cons.prems]
    have "sorted_wrt (\<lambda>a b. \<not> c b a < 0) (insort_cmp c x acc)" .
    from Cons.IH [OF this] show ?case by simp
  qed
  from this [of "[]"] have "sorted_wrt (\<lambda>a b. \<not> c b a < 0) (sort_cmp c xs)"
    by (simp add: sort_cmp_def)
  then show ?thesis by (simp add: mset_sort_cmp)
qed

subsection \<open>Forecast rows\<close>

text \<open>The clamp gives a number from 0 to 1 unless the sum is \<open>NaN\<close>.\<close>

lemma clamp_range:
  "\<not> isNaN x \<Longrightarrow>
   \<exists>q. Math_min (Fin 1) (Math_max (Fin 0) x) = Fin q \<and> 0 \<le> q \<and> q \<le> 1"
  by (cases x) (auto simp add: Math_min_def Math_max_def)

lemma clamp_NaN: "isNaN x \<Longrightarrow> Math_min (Fin 1) (Math_max (Fin 0) x) = NaN"
  by (simp add: Math_min_def Math_max_def)

lemma js_add_finite_not_NaN:
  "(\<forall>x y. \<not> isNaN (add64 B x y)) \<Longrightarrow> \<not> isNaN a \<Longrightarrow> \<not> isNaN (js_add B a (Fin q))"
  by (cases a) simp_all

text \<open>
  The sum of binary64 numbers is never \<open>NaN\<close> when both are finite. With an addition of
  this kind, a sum of items none of which is infinite is not \<open>NaN\<close>, so the clamp brings
  it into the range from 0 to 1.
\<close>

lemma reduce_fill_not_NaN:
  "(\<forall>x y. \<not> isNaN (add64 B x y)) \<Longrightarrow>
   (\<forall>b \<in> set items. \<exists>n. ToNumber B (opt_get b ''fill_pressure'') = Inr n \<and> isFinite (or0 n)) \<Longrightarrow>
   \<not> isNaN a \<Longrightarrow> reduce_fill B a items = Inr t \<Longrightarrow> \<not> isNaN t"
proof (induction items arbitrary: a)
  case Nil
  then show ?case by auto
next
  case (Cons b bs)
  from Cons.prems(4) have g: "get b ''fill_pressure'' = Inr (opt_get b ''fill_pressure'')"
    by (auto simp add: get_def split: if_splits sum.splits)
  from Cons.prems(2) obtain n q where
    n: "ToNumber B (opt_get b ''fill_pressure'') = Inr n" and q: "or0 n = Fin q"
    by (cases "or0 (projr (ToNumber B (opt_get b ''fill_pressure'')))") auto
  from Cons.prems(4) g n q have r: "reduce_fill B (js_add B a (Fin q)) bs = Inr t" by simp
  from js_add_finite_not_NaN [OF Cons.prems(1,3)] have "\<not> isNaN (js_add B a (Fin q))" .
  from Cons.IH [OF Cons.prems(1) _ this r] Cons.prems(2) show ?case by simp
qed

text \<open>A failed fetch gives the rate 0 and records the message.\<close>

lemma screen_row_error:
  "fst (getFillForScreen V B sid date w) = Inl e \<Longrightarrow>
   fill_rate (fst (screen_row V B date (sid, name) w)) = Fin 0
   \<and> error' (fst (screen_row V B date (sid, name) w)) = Some (message B e)"
  by (cases "getFillForScreen V B sid date w") (auto split: sum.splits)

text \<open>Every day-record holds one row per configured screen, in the order of the table.\<close>

lemma day_rows_one_per_screen:
  "map (\<lambda>r. (id' r, du_name r)) (fst (day_rows V B date screens' w)) = screens'"
proof (induction screens' arbitrary: w)
  case Nil
  show ?case by simp
next
  case (Cons s ss)
  obtain sid name where s: "s = (sid, name)" by (cases s)
  obtain r w1 where r: "screen_row V B date (sid, name) w = (r, w1)"
    by (cases "screen_row V B date (sid, name) w")
  then have "id' r = sid \<and> du_name r = name"
    by (auto split: prod.splits sum.splits)
  with Cons.IH [of w1] r s show ?case
    by (simp del: screen_row.simps add: case_prod_beta)
qed

lemma forecast_one_record_per_day:
  "map fst (fst (forecast V B allDays screens' w)) = allDays
   \<and> (\<forall>(date, count', rows) \<in> set (fst (forecast V B allDays screens' w)).
        count' = length screens' \<and> map (\<lambda>r. (id' r, du_name r)) rows = screens')"
proof (induction allDays arbitrary: w)
  case Nil
  show ?case by simp
next
  case (Cons date ds)
  obtain rows w1 where d: "day_rows V B date screens' w = (rows, w1)"
    by (cases "day_rows V B date screens' w")
  from day_rows_one_per_screen [of V B date screens' w] d
  have m: "map (\<lambda>r. (id' r, du_name r)) rows = screens'" by simp
  then have "length rows = length screens'" by (metis length_map)
  with Cons.IH [of w1] d m show ?case by (auto split: prod.splits)
qed

subsection \<open>Inputs on which the code leaves its specification\<close>

text \<open>
  C9, at the failing input: the items of the report hold the pressures \<^verbatim>\<open>1e999\<close> and
  \<^verbatim>\<open>-1e999\<close>. Their sum is \<open>NaN\<close>, which \<^verbatim>\<open>Math.max\<close> and \<^verbatim>\<open>Math.min\<close> pass on, so the row
  of the screen gets the fill rate \<open>NaN\<close>, with no error recorded.
\<close>

theorem fill_rate_not_clamped_at_NaN:
  "fill_rate (fst (screen_row vendor_infinite sample_builtins ''2024-03-01''
                     (237870, ''Akureyri #1'') session_expired)) = NaN
   \<and> error' (fst (screen_row vendor_infinite sample_builtins ''2024-03-01''
                     (237870, ''Akureyri #1'') session_expired)) = None
   \<and> rows_seen (fst (screen_row vendor_infinite sample_builtins ''2024-03-01''
                     (237870, ''Akureyri #1'') session_expired)) = Some 2"
  by (simp add: direct.simps eval_vendor vendor_infinite_def getFillForScreen_def extractItems_def
      opt_get_def get_def ToPrimitive_def ToNumber_def or0_def Math_max_def Math_min_def)

text \<open>
  C7, at the failing input: the feed names the screens Zeta and 7, in this order.
  \<open>screens\<close> keeps the first-seen order, but in the snapshot object the key 7 is an array
  index and is listed first, so the \<^verbatim>\<open>rows\<close> of the JSON artifact begin with screen 7.
\<close>

theorem json_rows_leave_first_seen_order:
  "(case normalize sample_builtins heap0 feed_numeric_name of
      Inr (n, h) \<Rightarrow> screens n
    | Inl e \<Rightarrow> []) = [''Zeta'', ''7'']
   \<and> (case nodes (snd (main sample_builtins run_numeric_name world0))
              [''logs'', ''2024'', ''03'', ''2024-03-01.json''] of
         Some (File (JSON_text p)) \<Rightarrow> opt_get p ''rows''
       | _ \<Rightarrow> JUndefined)
       = JArr [JObj [(''screen'', JStr ''7''), (''fill_rate'', JNum (Fin (1 / 5)))],
               JObj [(''screen'', JStr ''Zeta''), (''fill_rate'', JNum (Fin (1 / 2)))]]"
  by (simp add: eval_js eval_archive run_numeric_name_def run_example_def world0_def
      feed_numeric_name_def)

end
